theory Spec2Isabelle
  imports Main "HOL-Library.Char_ord" "HOL-Library.List_Lexorder"
begin

section \<open>Error responses (utils/errorResponse.js)\<close>

text \<open>
  \<open>ErrorResponse\<close> carries a message and an HTTP status code. The other errors that can
  travel through the authentication core are the ones raised by the libraries: a Mongoose
  validation error, a duplicate-key error of a unique index, the two errors of
  \<open>jwt.verify\<close>, a \<open>TypeError\<close> of the runtime, and the \<open>Error\<close> that \<open>sendEmail\<close> throws
  when the mail transport fails.

  A validation error is recorded by the schema field of the first path that failed, in
  the order of the schema, and by the kind of the validator that failed there (the \<open>kind\<close>
  of its \<open>ValidatorError\<close>: \<open>required\<close>, \<open>regexp\<close>, \<open>minlength\<close>, \<open>enum\<close>). Mongoose reports the
  failures of all paths at once, each with a message; neither is modelled. A duplicate-key
  error is recorded by the field of the index.
\<close>

datatype error =
    ErrorResponse string nat
  | ValidationError string string
  | DuplicateKeyError string
  | JsonWebTokenError
  | TokenExpiredError
  | TypeError
  | SendMailError

fun statusCode :: "error \<Rightarrow> nat option" where
  "statusCode (ErrorResponse m c) = Some c"
| "statusCode e = None"

section \<open>Role constants (constants/roles.js)\<close>

definition ROLES_ADMIN :: string where "ROLES_ADMIN = ''admin''"
definition ROLES_TEACHER :: string where "ROLES_TEACHER = ''teacher''"
definition ROLES_STUDENT :: string where "ROLES_STUDENT = ''student''"

section \<open>Property lookup on object literals\<close>

text \<open>
  \<open>ROLE_HIERARCHY\<close>, \<open>PERMISSION_ALIASES\<close> and \<open>userModels\<close> are object literals indexed
  with a string that comes from the request. Such a lookup first tries the object's own
  keys and then the members every object literal inherits from \<open>Object.prototype\<close>; only
  when both fail is the result \<open>undefined\<close>. An inherited member is a function, or (for
  \<open>__proto__\<close>) the prototype object itself; it is recorded by its key.
\<close>

datatype 'a lookup = Own 'a | Inherited string | Undefined

definition object_prototype_keys :: "string list" where
  "object_prototype_keys =
     [''constructor'', ''__defineGetter__'', ''__defineSetter__'', ''hasOwnProperty'',
      ''__lookupGetter__'', ''__lookupSetter__'', ''isPrototypeOf'', ''propertyIsEnumerable'',
      ''toString'', ''valueOf'', ''__proto__'', ''toLocaleString'']"

definition js_get :: "(string \<times> 'a) list \<Rightarrow> string \<Rightarrow> 'a lookup" where
  "js_get obj key =
     (case map_of obj key of
        Some v \<Rightarrow> Own v
      | None \<Rightarrow> if key \<in> set object_prototype_keys then Inherited key else Undefined)"

text \<open>
  The string an inherited member converts to: \<open>constructor\<close> is the function \<open>Object\<close>,
  \<open>__proto__\<close> is \<open>Object.prototype\<close>, every other member is a function of its own name.
\<close>

definition member_string :: "string \<Rightarrow> string" where
  "member_string key =
     (if key = ''__proto__'' then ''[object Object]''
      else ''function '' @ (if key = ''constructor'' then ''Object'' else key) @
           ''() { [native code] }'')"

text \<open>
  The relational operator \<open><\<close> on what a lookup in a table of numbers yields: two
  numbers compare as numbers, two inherited members compare by the strings they convert
  to, and every other combination involves \<open>NaN\<close> (from \<open>undefined\<close>, or from the string
  of an inherited member, which is not a numeral) and is false.
\<close>

fun js_less :: "nat lookup \<Rightarrow> nat lookup \<Rightarrow> bool" where
  "js_less (Own a) (Own b) = (a < b)"
| "js_less (Inherited j) (Inherited k) = (member_string j < member_string k)"
| "js_less a b = False"

text \<open>
  The values an entry of a \<open>permissions\<close> array can be: \<open>undefined\<close> or \<open>null\<close>, a number
  (of those, the ones whose value is a natural number), a string, or an object, recorded
  by the string it converts to. Their truthiness (\<open>x || y\<close>, \<open>!x\<close>, \<open>filter(Boolean)\<close>):
\<close>

datatype js_value = JUndefined | JNumber nat | JString string | JObject string

fun truthy :: "js_value \<Rightarrow> bool" where
  "truthy JUndefined = False"
| "truthy (JNumber n) = (n \<noteq> 0)"
| "truthy (JString s) = (s \<noteq> [])"
| "truthy (JObject s) = True"


section \<open>Strings of the runtime\<close>

text \<open>
  A string is a list of code units below 256 (Latin-1). \<open>trim\<close> and the class \<open>\S\<close> of
  regular expressions use the same notion of white space; \<open>toLowerCase\<close> maps
  \<open>A\<close>..\<open>Z\<close> and the upper-case letters of Latin-1 to their lower-case letters.
\<close>

definition js_whitespace :: "char \<Rightarrow> bool" where
  "js_whitespace c \<longleftrightarrow> (of_char c :: nat) \<in> set [9, 10, 11, 12, 13, 32, 160]"

definition trim :: "string \<Rightarrow> string" where
  "trim s = rev (dropWhile js_whitespace (rev (dropWhile js_whitespace s)))"

definition lower_char :: "char \<Rightarrow> char" where
  "lower_char c =
     (let n = (of_char c :: nat)
      in if (65 \<le> n \<and> n \<le> 90) \<or> (192 \<le> n \<and> n \<le> 222 \<and> n \<noteq> 215)
         then char_of (n + 32) else c)"

definition toLowerCase :: "string \<Rightarrow> string" where
  "toLowerCase s = map lower_char s"

definition startsWith :: "string \<Rightarrow> string \<Rightarrow> bool" where
  "startsWith s p \<longleftrightarrow> take (length p) s = p"

text \<open>\<open>s.split(sep)\<close> for a separator of one character: never the empty list.\<close>

fun split :: "char \<Rightarrow> string \<Rightarrow> string list" where
  "split sep [] = [[]]"
| "split sep (c # cs) =
     (if c = sep then [] # split sep cs
      else (case split sep cs of p # ps \<Rightarrow> (c # p) # ps | [] \<Rightarrow> [[c]]))"

text \<open>\<open>xs[i]\<close>: \<open>undefined\<close> (here \<open>None\<close>) beyond the end.\<close>

definition at_index :: "'a list \<Rightarrow> nat \<Rightarrow> 'a option" where
  "at_index xs i = (if i < length xs then Some (xs ! i) else None)"

text \<open>The decimal digits of a natural number.\<close>

fun decimal :: "nat \<Rightarrow> string" where
  "decimal n = (if n < 10 then [char_of (48 + n)] else decimal (n div 10) @ [char_of (48 + n mod 10)])"

declare decimal.simps [simp del]

section \<open>Numbers of the runtime\<close>

text \<open>
  A number of the program is a double. The numbers that arise here are \<open>NaN\<close>, the two
  infinities and doubles whose value is an integer: \<open>Num i\<close> is the double of value \<open>i\<close>
  (the sign of zero plays no part). \<open>round_double n\<close> is the double nearest to the natural
  number \<open>n\<close>, with 53 significant bits and ties to the even significand; from
  \<open>2^1024 - 2^970\<close> on it is infinite (\<open>None\<close>).
\<close>

datatype number = NaN | Num int | PosInfinity | NegInfinity

fun excess_bits :: "nat \<Rightarrow> nat" where
  "excess_bits n = (if n < 9007199254740992 then 0 else Suc (excess_bits (n div 2)))"

declare excess_bits.simps [simp del]

definition round_double :: "nat \<Rightarrow> nat option" where
  "round_double n =
     (let e = excess_bits n;
          q = n div 2 ^ e;
          r = n mod 2 ^ e;
          significand = (if 2 ^ e < 2 * r \<or> (2 * r = 2 ^ e \<and> odd q) then q + 1 else q)
      in if 2 ^ 1024 \<le> significand * 2 ^ e then None else Some (significand * 2 ^ e))"

definition to_double :: "int \<Rightarrow> number" where
  "to_double i =
     (case round_double (nat \<bar>i\<bar>) of
        Some v \<Rightarrow> Num (if i < 0 then - int v else int v)
      | None \<Rightarrow> if i < 0 then NegInfinity else PosInfinity)"

definition isNaN :: "number \<Rightarrow> bool" where
  "isNaN x \<longleftrightarrow> x = NaN"

text \<open>\<open>x + k\<close> for an integer \<open>k\<close> that a double holds exactly.\<close>

definition number_plus :: "number \<Rightarrow> int \<Rightarrow> number" where
  "number_plus x k = (case x of Num i \<Rightarrow> to_double (i + k) | _ \<Rightarrow> x)"

text \<open>
  \<open>parseInt(s)\<close> without a radix: white space and a sign are skipped, \<open>0x\<close> selects base
  16, and the longest prefix of digits is read; the result is the double nearest to the
  number read, and \<open>NaN\<close> when no digit is read. (The language lets an implementation read
  decimal digits beyond the twentieth as zeros; V8 rounds the exact value, as here.)
\<close>

definition digit_of :: "char \<Rightarrow> nat option" where
  "digit_of c =
     (let n = (of_char c :: nat)
      in if 48 \<le> n \<and> n \<le> 57 then Some (n - 48)
         else if 97 \<le> n \<and> n \<le> 122 then Some (n - 87)
         else if 65 \<le> n \<and> n \<le> 90 then Some (n - 55)
         else None)"

definition is_digit :: "nat \<Rightarrow> char \<Rightarrow> bool" where
  "is_digit radix c = (case digit_of c of Some v \<Rightarrow> v < radix | None \<Rightarrow> False)"

definition digits_value :: "nat \<Rightarrow> string \<Rightarrow> nat" where
  "digits_value radix ds =
     foldl (\<lambda>acc c. acc * radix + (case digit_of c of Some v \<Rightarrow> v | None \<Rightarrow> 0)) 0 ds"

definition parseInt :: "string option \<Rightarrow> number" where
  "parseInt arg =
     (let s = dropWhile js_whitespace (case arg of Some a \<Rightarrow> a | None \<Rightarrow> ''undefined'');
          negative = (take 1 s = ''-'');
          s1 = (if take 1 s = ''-'' \<or> take 1 s = ''+'' then drop 1 s else s);
          hex = (take 2 s1 = ''0x'' \<or> take 2 s1 = ''0X'');
          radix = (if hex then 16 else 10);
          s2 = (if hex then drop 2 s1 else s1);
          z = takeWhile (is_digit radix) s2
      in if z = [] then NaN
         else to_double ((if negative then - 1 else 1) * int (digits_value radix z)))"

text \<open>
  \<open>x.toString()\<close>. Below \<open>2^53\<close> every integer is a double and is printed digit by digit.
  Above, the digits printed are those of the integer with the fewest significant digits
  that still rounds to the double (the nearest one of them, the even one on a tie),
  followed by zeros; from 22 digits on the exponent form is used.
\<close>

definition decimal_candidate :: "nat \<Rightarrow> nat \<Rightarrow> nat option" where
  "decimal_candidate n k =
     (let unit = 10 ^ (length (decimal n) - k);
          lo = (n div unit) * unit;
          hi = lo + unit;
          lo_ok = (round_double lo = Some n);
          hi_ok = (round_double hi = Some n)
      in if lo_ok \<and> hi_ok
         then (if n - lo < hi - n \<or> (n - lo = hi - n \<and> even (n div unit)) then Some lo else Some hi)
         else if lo_ok then Some lo
         else if hi_ok then Some hi
         else None)"

definition shortest_decimal :: "nat \<Rightarrow> nat" where
  "shortest_decimal n =
     (case List.map_filter (decimal_candidate n) [1 ..< Suc (length (decimal n))] of
        v # vs \<Rightarrow> v
      | [] \<Rightarrow> n)"

definition exponent_form :: "string \<Rightarrow> string" where
  "exponent_form ds =
     (let s = rev (dropWhile (\<lambda>c. c = CHR ''0'') (rev ds))
      in take 1 s @ (if length s > 1 then ''.'' @ drop 1 s else []) @ ''e+'' @
         decimal (length ds - 1))"

definition nat_toString :: "nat \<Rightarrow> string" where
  "nat_toString n =
     (if n < 9007199254740992 then decimal n
      else let ds = decimal (shortest_decimal n)
           in if length ds \<le> 21 then ds else exponent_form ds)"

definition number_toString :: "number \<Rightarrow> string" where
  "number_toString x =
     (case x of
        NaN \<Rightarrow> ''NaN''
      | PosInfinity \<Rightarrow> ''Infinity''
      | NegInfinity \<Rightarrow> ''-Infinity''
      | Num i \<Rightarrow> if i < 0 then ''-'' @ nat_toString (nat (- i)) else nat_toString (nat i))"

text \<open>\<open>s.padStart(len, '0')\<close>\<close>

definition padStart :: "nat \<Rightarrow> string \<Rightarrow> string" where
  "padStart len s = replicate (len - length s) (CHR ''0'') @ s"

text \<open>
  \<open>String(v)\<close> of a value: \<open>JNumber n\<close> is the number of value \<open>n\<close>, for an \<open>n\<close> that a double
  holds.
\<close>

fun js_String :: "js_value \<Rightarrow> string" where
  "js_String JUndefined = ''undefined''"
| "js_String (JNumber n) = nat_toString n"
| "js_String (JString s) = s"
| "js_String (JObject s) = s"

section \<open>Role-based access control (middlewares/rbac.middleware.js)\<close>

text \<open>
  The module imports \<open>ROLES\<close> from \<open>controllers/auth.controller.js\<close>, which exports no
  such name; the constants meant are those of \<open>constants/roles.js\<close>, which the controller
  itself imports, and they are the ones used here.
\<close>

text \<open>
  The request context \<open>req.user\<close>. The fields \<open>roleType\<close> and \<open>permissions\<close> are optional:
  \<open>None\<close> is the JavaScript \<open>undefined\<close> of a property that is absent.
\<close>

record req_user =
  user_id :: nat
  user_email :: string
  user_firstName :: string
  user_lastName :: string
  user_role :: string
  user_roleType :: "string option"
  user_permissions :: "string list option"

text \<open>What a middleware does with \<open>next\<close>: call it plainly, or call it with an error.\<close>

datatype outcome = Next | NextError error

definition ROLE_HIERARCHY :: "(string \<times> nat) list" where
  "ROLE_HIERARCHY = [(ROLES_ADMIN, 3), (ROLES_TEACHER, 2), (ROLES_STUDENT, 1)]"

definition requireRole :: "string list \<Rightarrow> req_user option \<Rightarrow> outcome" where
  "requireRole roles user =
     (case user of
        None \<Rightarrow> NextError (ErrorResponse ''Authentication required'' 401)
      | Some u \<Rightarrow>
          if user_role u \<notin> set roles
          then NextError (ErrorResponse (''Role '' @ [CHR 0x27] @ user_role u @ [CHR 0x27] @
                            '' is not authorized to access this route'') 403)
          else Next)"

definition requireMinRole :: "string \<Rightarrow> req_user option \<Rightarrow> outcome" where
  "requireMinRole minRole user =
     (case user of
        None \<Rightarrow> NextError (ErrorResponse ''Authentication required'' 401)
      | Some u \<Rightarrow>
          let userRoleLevel = js_get ROLE_HIERARCHY (user_role u);
              requiredRoleLevel = js_get ROLE_HIERARCHY minRole
          in if js_less userRoleLevel requiredRoleLevel
             then NextError (ErrorResponse (''Role '' @ [CHR 0x27] @ user_role u @ [CHR 0x27] @
                              '' does not have sufficient privileges'') 403)
             else Next)"

text \<open>\<open>permissions.join(', ')\<close>\<close>

fun join :: "string \<Rightarrow> string list \<Rightarrow> string" where
  "join sep [] = []"
| "join sep [x] = x"
| "join sep (x # y # ys) = x @ sep @ join sep (y # ys)"

text \<open>\<open>req.user.permissions?.includes(permission)\<close>, taken for its truth value.\<close>

definition permissions_include :: "req_user \<Rightarrow> string \<Rightarrow> bool" where
  "permissions_include u permission =
     (case user_permissions u of None \<Rightarrow> False | Some ps \<Rightarrow> permission \<in> set ps)"

definition requirePermission :: "string \<Rightarrow> req_user option \<Rightarrow> outcome" where
  "requirePermission permission user =
     (case user of
        None \<Rightarrow> NextError (ErrorResponse ''Authentication required'' 401)
      | Some u \<Rightarrow>
          if user_role u = ROLES_ADMIN \<and> user_roleType u = Some ''super_admin'' then Next
          else if \<not> permissions_include u permission
          then NextError (ErrorResponse (''Insufficient permissions. Required: '' @ permission) 403)
          else Next)"

definition requireAnyPermission :: "string list \<Rightarrow> req_user option \<Rightarrow> outcome" where
  "requireAnyPermission perms user =
     (case user of
        None \<Rightarrow> NextError (ErrorResponse ''Authentication required'' 401)
      | Some u \<Rightarrow>
          if user_role u = ROLES_ADMIN \<and> user_roleType u = Some ''super_admin'' then Next
          else let hasPermission = list_ex (permissions_include u) perms
               in if \<not> hasPermission
                  then NextError (ErrorResponse (''Insufficient permissions. Required one of: '' @
                                    join '', '' perms) 403)
                  else Next)"

section \<open>Admin permissions (models/Admin.model.js)\<close>

definition ADMIN_PERMISSIONS :: "(string \<times> string) list" where
  "ADMIN_PERMISSIONS =
     [(''MANAGE_USERS'', ''manage_users''),
      (''MANAGE_ROLES'', ''manage_roles''),
      (''MANAGE_COURSES'', ''manage_courses''),
      (''MANAGE_SUBJECTS'', ''manage_subjects''),
      (''MANAGE_GRADES'', ''manage_grades''),
      (''MANAGE_SETTINGS'', ''manage_settings''),
      (''VIEW_AUDIT_LOGS'', ''view_audit_logs''),
      (''MANAGE_ANNOUNCEMENTS'', ''manage_announcements''),
      (''MANAGE_RESOURCES'', ''manage_resources'')]"

text \<open>\<open>Object.values(ADMIN_PERMISSIONS)\<close>\<close>

definition ADMIN_PERMISSION_values :: "string list" where
  "ADMIN_PERMISSION_values = map snd ADMIN_PERMISSIONS"

definition PERMISSION_ALIASES :: "(string \<times> string) list" where
  "PERMISSION_ALIASES =
     [(''system_settings'', ''manage_settings''),
      (''settings'', ''manage_settings''),
      (''audit_logs'', ''view_audit_logs''),
      (''users'', ''manage_users''),
      (''roles'', ''manage_roles''),
      (''courses'', ''manage_courses''),
      (''subjects'', ''manage_subjects''),
      (''grades'', ''manage_grades''),
      (''announcements'', ''manage_announcements''),
      (''resources'', ''manage_resources'')]"

definition normalizePermission :: "js_value \<Rightarrow> js_value" where
  "normalizePermission v =
     (if \<not> truthy v then v
      else let key = toLowerCase (js_String v)
           in if key \<in> set ADMIN_PERMISSION_values then JString key
              else (case js_get PERMISSION_ALIASES key of
                      Own alias \<Rightarrow> if alias \<noteq> [] then JString alias else v
                    | Inherited member \<Rightarrow> JObject (member_string member)
                    | Undefined \<Rightarrow> v))"

definition DEFAULT_ADMIN_PERMISSIONS :: "string list" where
  "DEFAULT_ADMIN_PERMISSIONS = [''manage_users'', ''manage_courses'', ''manage_grades'', ''manage_settings'']"

text \<open>
  The \<open>pre('validate')\<close> hook: \<open>this.permissions\<close> of a document is always an array.
\<close>

definition pre_validate :: "js_value list \<Rightarrow> js_value list" where
  "pre_validate perms = filter truthy (map normalizePermission perms)"

text \<open>
  The \<open>pre('findOneAndUpdate')\<close> hook works on the update object. Only its \<open>$set\<close> part
  and its top-level \<open>permissions\<close> matter; a \<open>permissions\<close> value is an array or anything
  else.
\<close>

datatype perms_field = PermArray "js_value list" | PermOther js_value

record update_object =
  dollar_set :: "perms_field option option"
  top_permissions :: "perms_field option"

fun perms_truthy :: "perms_field \<Rightarrow> bool" where
  "perms_truthy (PermArray xs) = True"
| "perms_truthy (PermOther v) = truthy v"

fun normalize_field :: "perms_field \<Rightarrow> perms_field" where
  "normalize_field (PermArray xs) = PermArray (filter truthy (map normalizePermission xs))"
| "normalize_field (PermOther v) = PermOther v"

definition pre_findOneAndUpdate :: "update_object \<Rightarrow> update_object" where
  "pre_findOneAndUpdate update =
     (let target = (case dollar_set update of Some s \<Rightarrow> s | None \<Rightarrow> top_permissions update)
      in case target of
           None \<Rightarrow> update
         | Some p \<Rightarrow>
             if perms_truthy p
             then (case dollar_set update of
                     Some s \<Rightarrow> update\<lparr>dollar_set := Some (Some (normalize_field p))\<rparr>
                   | None \<Rightarrow> update\<lparr>top_permissions := Some (normalize_field p)\<rparr>)
             else update)"


section \<open>Libraries, configuration and environment\<close>

text \<open>
  \<open>bcryptjs\<close>, \<open>jsonwebtoken\<close> and \<open>crypto\<close> are not part of the repository: they are
  parameters of the model. \<open>jwt_sign\<close> takes the payload \<open>{id, role}\<close>, the secret, the
  lifetime in seconds and the clock in milliseconds; \<open>jwt_verify\<close> takes the token, the
  secret and the clock. Both can throw. The \<open>id\<close> of a payload is \<open>None\<close> when the value
  signed was \<open>undefined\<close>.
\<close>

record jwt_payload =
  jwt_id :: "nat option"
  jwt_role :: string
  iat :: nat
  exp :: nat

record library =
  bcrypt_hash :: "string \<Rightarrow> string \<Rightarrow> string"
  bcrypt_compare :: "string \<Rightarrow> string \<Rightarrow> bool"
  jwt_sign :: "nat option \<times> string \<Rightarrow> string \<Rightarrow> nat \<Rightarrow> nat \<Rightarrow> error + string"
  jwt_verify :: "string \<Rightarrow> string \<Rightarrow> nat \<Rightarrow> error + jwt_payload"
  sha256_hex :: "string \<Rightarrow> string"

text \<open>
  \<open>process.env\<close>: the signing secret, and \<open>JWT_EXPIRE\<close> when it is set, taken to be a
  well-formed time span and given by its length in seconds (the default \<open>'7d'\<close> is 604800
  seconds).
\<close>

record config =
  JWT_SECRET :: string
  JWT_EXPIRE :: "nat option"

text \<open>
  What a call takes from outside: the clock \<open>Date.now()\<close> in milliseconds, the calendar
  year \<open>new Date().getFullYear()\<close>, the salt of \<open>bcrypt.genSalt(10)\<close> in the service and
  the one a \<open>pre('save')\<close> hook would draw, the \<open>_id\<close> the driver gives a new document,
  the hexadecimal string of \<open>crypto.randomBytes(20)\<close>, and whether the mail transport
  delivers.
\<close>

record environment =
  now :: nat
  year :: nat
  salt :: string
  hook_salt :: string
  new_id :: nat
  random_hex :: string
  mail_delivered :: bool

section \<open>Identity documents (models/Admin.model.js, Teacher.model.js, Student.model.js)\<close>

text \<open>
  The three collections hold documents of the same shape; \<open>roleType\<close> and \<open>permissions\<close>
  are fields of the Admin schema only. \<open>sequenceId\<close> is the \<open>studentId\<close> of a student and
  the \<open>employeeId\<close> of a teacher, both under a unique index; an admin has none. The other
  profile fields play no part in authentication and are left out.
\<close>

datatype model = Admin | Teacher | Student

record user_doc =
  oid :: nat
  email :: string
  password :: string
  firstName :: string
  lastName :: string
  roleType :: "string option"
  permissions :: "string list"
  sequenceId :: string

record token_doc =
  tok_oid :: nat
  tok_user :: nat
  userModel :: string
  token :: string
  tok_type :: string
  expiresAt :: nat
  used :: bool
  ipAddress :: string
  userAgent :: string

record database =
  admins :: "user_doc list"
  teachers :: "user_doc list"
  students :: "user_doc list"
  tokens :: "token_doc list"

fun collection :: "model \<Rightarrow> database \<Rightarrow> user_doc list" where
  "collection Admin db = admins db"
| "collection Teacher db = teachers db"
| "collection Student db = students db"

fun set_collection :: "model \<Rightarrow> user_doc list \<Rightarrow> database \<Rightarrow> database" where
  "set_collection Admin ds db = db\<lparr>admins := ds\<rparr>"
| "set_collection Teacher ds db = db\<lparr>teachers := ds\<rparr>"
| "set_collection Student ds db = db\<lparr>students := ds\<rparr>"

text \<open>
  The schema options \<open>trim: true, lowercase: true\<close> of \<open>email\<close> are setters; Mongoose runs
  them on the value written and on the value queried.
\<close>

definition email_setter :: "string \<Rightarrow> string" where
  "email_setter e = toLowerCase (trim e)"

text \<open>\<open>/^\S+@\S+\.\S+$/\<close>\<close>

definition email_regex :: "string \<Rightarrow> bool" where
  "email_regex s \<longleftrightarrow>
     list_all (\<lambda>c. \<not> js_whitespace c) s \<and>
     list_ex (\<lambda>i. s ! i = CHR ''@'' \<and>
                list_ex (\<lambda>j. s ! j = CHR ''.'') [i + 2 ..< length s - 1])
             [1 ..< length s]"

text \<open>\<open>/^\$2[aby]\$/\<close>\<close>

definition is_bcrypt_hash :: "string \<Rightarrow> bool" where
  "is_bcrypt_hash pw \<longleftrightarrow> take 4 pw \<in> set [''$2a$'', ''$2b$'', ''$2y$'']"

definition roleType_enum :: "string list" where
  "roleType_enum = [''super_admin'', ''academic_admin'', ''support_admin'', ''custom'']"

definition password_minlength :: "model \<Rightarrow> nat" where
  "password_minlength m = (case m of Admin \<Rightarrow> 8 | Teacher \<Rightarrow> 6 | Student \<Rightarrow> 6)"

section \<open>Sequence numbers (generateStudentId, generateEmployeeId)\<close>

text \<open>\<open>currentYear.toString().slice(-2)\<close>\<close>

definition yearSuffix :: "nat \<Rightarrow> string" where
  "yearSuffix currentYear = (let s = decimal currentYear in drop (length s - 2) s)"

text \<open>
  \<open>findOne({id: /^prefix/}).sort({id: -1})\<close>: of the documents whose sequence number
  starts with the prefix, one with the greatest number in the order of strings.
\<close>

fun greatest_sequenceId :: "user_doc list \<Rightarrow> user_doc option" where
  "greatest_sequenceId [] = None"
| "greatest_sequenceId (d # ds) =
     (case greatest_sequenceId ds of
        None \<Rightarrow> Some d
      | Some e \<Rightarrow> if sequenceId e \<le> sequenceId d then Some d else Some e)"

definition find_last :: "string \<Rightarrow> user_doc list \<Rightarrow> user_doc option" where
  "find_last prefix ds = greatest_sequenceId (filter (\<lambda>d. startsWith (sequenceId d) prefix) ds)"

definition generateStudentId :: "nat \<Rightarrow> user_doc list \<Rightarrow> string" where
  "generateStudentId currentYear studs =
     (let suffix = yearSuffix currentYear;
          lastStudent = find_last (suffix @ ''-'') studs;
          nextNumber =
            (case lastStudent of
               None \<Rightarrow> Num 100001
             | Some d \<Rightarrow>
                 if sequenceId d = [] then Num 100001
                 else let lastNumber = parseInt (at_index (split CHR ''-'' (sequenceId d)) 1)
                      in if \<not> isNaN lastNumber then number_plus lastNumber 1 else Num 100001)
      in suffix @ ''-'' @ padStart 6 (number_toString nextNumber))"

definition generateEmployeeId :: "nat \<Rightarrow> user_doc list \<Rightarrow> string" where
  "generateEmployeeId currentYear teachs =
     (let suffix = yearSuffix currentYear;
          lastTeacher = find_last (''EMP-'' @ suffix @ ''-'') teachs;
          nextNumber =
            (case lastTeacher of
               None \<Rightarrow> Num 10001
             | Some d \<Rightarrow>
                 if sequenceId d = [] then Num 10001
                 else let lastNumber = parseInt (at_index (split CHR ''-'' (sequenceId d)) 2)
                      in if \<not> isNaN lastNumber then number_plus lastNumber 1 else Num 10001)
      in ''EMP-'' @ suffix @ ''-'' @ padStart 5 (number_toString nextNumber))"

text \<open>The first \<open>pre('save')\<close> hook of the Student and Teacher schemas.\<close>

definition pre_save_sequenceId :: "environment \<Rightarrow> model \<Rightarrow> database \<Rightarrow> string \<Rightarrow> string" where
  "pre_save_sequenceId env m db current =
     (case m of
        Admin \<Rightarrow> current
      | Teacher \<Rightarrow> if current = [] then generateEmployeeId (year env) (teachers db) else current
      | Student \<Rightarrow> if current = [] then generateStudentId (year env) (students db) else current)"

section \<open>Saving identity documents\<close>

text \<open>
  The validators of the schema, on a document whose \<open>permissions\<close> are still the values
  the \<open>pre('validate')\<close> hook produced.
\<close>

definition permission_valid :: "js_value \<Rightarrow> bool" where
  "permission_valid v = (case v of JString p \<Rightarrow> p \<in> set ADMIN_PERMISSION_values | _ \<Rightarrow> False)"

definition validate_doc :: "model \<Rightarrow> user_doc \<Rightarrow> js_value list \<Rightarrow> error option" where
  "validate_doc m d perms =
     (if email d = [] then Some (ValidationError ''email'' ''required'')
      else if \<not> email_regex (email d) then Some (ValidationError ''email'' ''regexp'')
      else if password d = [] then Some (ValidationError ''password'' ''required'')
      else if length (password d) < password_minlength m
        then Some (ValidationError ''password'' ''minlength'')
      else if firstName d = [] then Some (ValidationError ''firstName'' ''required'')
      else if lastName d = [] then Some (ValidationError ''lastName'' ''required'')
      else if m = Admin \<and> (case roleType d of None \<Rightarrow> False | Some t \<Rightarrow> t \<notin> set roleType_enum)
        then Some (ValidationError ''roleType'' ''enum'')
      else if m = Admin \<and> \<not> list_all permission_valid perms
        then Some (ValidationError ''permissions'' ''enum'')
      else None)"

text \<open>
  The \<open>pre('save')\<close> hook of the three schemas: a modified password that does not look
  like a bcrypt hash is hashed.
\<close>

definition pre_save_password :: "library \<Rightarrow> environment \<Rightarrow> string \<Rightarrow> string" where
  "pre_save_password L env pw =
     (if pw \<noteq> [] \<and> is_bcrypt_hash pw then pw else bcrypt_hash L pw (hook_salt env))"

text \<open>
  Validation and hooks of \<open>save\<close>, common to a new document and to a loaded one whose
  password was assigned: the \<open>pre('validate')\<close> hook of the Admin schema, the validators,
  the \<open>pre('save')\<close> hooks.
\<close>

definition prepare_save ::
  "library \<Rightarrow> environment \<Rightarrow> model \<Rightarrow> database \<Rightarrow> user_doc \<Rightarrow> error + user_doc" where
  "prepare_save L env m db d =
     (let perms = (if m = Admin then pre_validate (map JString (permissions d))
                   else map JString (permissions d))
      in case validate_doc m d perms of
           Some e \<Rightarrow> Inl e
         | None \<Rightarrow> Inr (d\<lparr>permissions := map js_String perms,
                           sequenceId := pre_save_sequenceId env m db (sequenceId d),
                           password := pre_save_password L env (password d)\<rparr>))"

text \<open>The unique indexes of a collection, checked when a document is written.\<close>

definition duplicate_key :: "model \<Rightarrow> user_doc \<Rightarrow> user_doc list \<Rightarrow> error option" where
  "duplicate_key m d others =
     (if list_ex (\<lambda>x. email x = email d) others then Some (DuplicateKeyError ''email'')
      else if m \<noteq> Admin \<and> list_ex (\<lambda>x. sequenceId x = sequenceId d) others
        then Some (DuplicateKeyError (if m = Student then ''studentId'' else ''employeeId''))
      else None)"

text \<open>The data \<open>register\<close> passes to \<open>Model.create\<close>.\<close>

record user_data =
  data_email :: string
  data_password :: string
  data_firstName :: string
  data_lastName :: string
  data_roleType :: "string option"
  data_permissions :: "string list option"
  data_sequenceId :: "string option"

definition Model_create ::
  "library \<Rightarrow> environment \<Rightarrow> model \<Rightarrow> database \<Rightarrow> user_data \<Rightarrow> (error + user_doc) \<times> database" where
  "Model_create L env m db data =
     (let d = \<lparr>oid = new_id env,
               email = email_setter (data_email data),
               password = data_password data,
               firstName = trim (data_firstName data),
               lastName = trim (data_lastName data),
               roleType = (if m = Admin
                           then Some (case data_roleType data of Some t \<Rightarrow> t | None \<Rightarrow> ''academic_admin'')
                           else None),
               permissions = (if m = Admin
                              then (case data_permissions data of Some ps \<Rightarrow> ps | None \<Rightarrow> [])
                              else []),
               sequenceId = (if m = Admin then []
                             else (case data_sequenceId data of Some i \<Rightarrow> i | None \<Rightarrow> []))\<rparr>
      in case prepare_save L env m db d of
           Inl e \<Rightarrow> (Inl e, db)
         | Inr d' \<Rightarrow>
             (case duplicate_key m d' (collection m db) of
                Some e \<Rightarrow> (Inl e, db)
              | None \<Rightarrow> (Inr d', set_collection m (collection m db @ [d']) db)))"

text \<open>
  \<open>user.save()\<close> on a loaded document whose \<open>password\<close> was assigned: the hooks and
  validators run as for a new document, then \<open>updateOne({_id})\<close> replaces the first
  document with that \<open>_id\<close>. The email is not changed; a sequence number is new only when
  the document had none.
\<close>

fun replace_by_id :: "user_doc \<Rightarrow> user_doc list \<Rightarrow> user_doc list" where
  "replace_by_id d [] = []"
| "replace_by_id d (x # xs) = (if oid x = oid d then d # xs else x # replace_by_id d xs)"

definition Model_save ::
  "library \<Rightarrow> environment \<Rightarrow> model \<Rightarrow> database \<Rightarrow> user_doc \<Rightarrow> (error + user_doc) \<times> database" where
  "Model_save L env m db d =
     (case prepare_save L env m db d of
        Inl e \<Rightarrow> (Inl e, db)
      | Inr d' \<Rightarrow>
          if m \<noteq> Admin \<and> sequenceId d = [] \<and>
             list_ex (\<lambda>x. sequenceId x = sequenceId d') (collection m db)
          then (Inl (DuplicateKeyError (if m = Student then ''studentId'' else ''employeeId'')), db)
          else (Inr d', set_collection m (replace_by_id d' (collection m db)) db))"

text \<open>A document loaded by a query knows the model it was loaded through.\<close>

type_synonym document = "model \<times> user_doc"

definition Model_findOne_email :: "model \<Rightarrow> database \<Rightarrow> string \<Rightarrow> document option" where
  "Model_findOne_email m db e = map_option (Pair m) (find (\<lambda>d. email d = email_setter e) (collection m db))"

definition Model_findById :: "model \<Rightarrow> database \<Rightarrow> nat \<Rightarrow> document option" where
  "Model_findById m db i = map_option (Pair m) (find (\<lambda>d. oid d = i) (collection m db))"

text \<open>
  \<open>Admin.findByIdAndUpdate(id, update, {new: true, runValidators: true})\<close>, as far as
  \<open>permissions\<close> go. The schema has \<open>timestamps: true\<close>, so the hook Mongoose registered
  when the schema was built runs first and puts \<open>updatedAt\<close> under \<open>$set\<close>, creating
  \<open>$set\<close> when the update has none. Then the \<open>pre('findOneAndUpdate')\<close> hook of the
  schema runs. Then the update is cast: a top-level field moves under \<open>$set\<close> (replacing
  what was there), and the value is cast to an array. The update validators run on the
  result before the query is sent; then the document is looked up and written.
\<close>

definition timestamps_on_update :: "update_object \<Rightarrow> update_object" where
  "timestamps_on_update update =
     update\<lparr>dollar_set := Some (case dollar_set update of Some s \<Rightarrow> s | None \<Rightarrow> None)\<rparr>"

definition Admin_findByIdAndUpdate ::
  "database \<Rightarrow> nat \<Rightarrow> update_object \<Rightarrow> (error + user_doc option) \<times> database" where
  "Admin_findByIdAndUpdate db i update =
     (let update' = pre_findOneAndUpdate (timestamps_on_update update);
          field = (case top_permissions update' of
                     Some p \<Rightarrow> Some p
                   | None \<Rightarrow> (case dollar_set update' of Some s \<Rightarrow> s | None \<Rightarrow> None))
      in case field of
           None \<Rightarrow> (Inr (find (\<lambda>d. oid d = i) (admins db)), db)
         | Some p \<Rightarrow>
             let perms = (case p of PermArray xs \<Rightarrow> xs | PermOther v \<Rightarrow> [v])
             in if \<not> list_all permission_valid perms
                then (Inl (ValidationError ''permissions'' ''enum''), db)
                else (case find (\<lambda>d. oid d = i) (admins db) of
                        None \<Rightarrow> (Inr None, db)
                      | Some d \<Rightarrow>
                          let d' = d\<lparr>permissions := map js_String perms\<rparr>
                          in (Inr (Some d'), db\<lparr>admins := replace_by_id d' (admins db)\<rparr>)))"

section \<open>Reset tokens (models/Token.model.js)\<close>

definition isValid :: "token_doc \<Rightarrow> nat \<Rightarrow> bool" where
  "isValid t clock \<longleftrightarrow> \<not> used t \<and> expiresAt t > clock"

definition findValidToken :: "database \<Rightarrow> string \<Rightarrow> nat \<Rightarrow> string \<Rightarrow> nat \<Rightarrow> token_doc option" where
  "findValidToken db tok userId ty clock =
     find (\<lambda>t. token t = tok \<and> tok_user t = userId \<and> tok_type t = ty \<and> used t = False \<and>
               expiresAt t > clock) (tokens db)"

text \<open>
  \<open>tokenDoc.save()\<close> of a new token: the validators of the schema run on the document as
  built, the \<open>pre('save')\<close> hook replaces the token by its SHA-256 digest, and the write
  fails when the \<open>_id\<close> or the digest is already stored (unique indexes).
\<close>

definition Token_save :: "library \<Rightarrow> database \<Rightarrow> token_doc \<Rightarrow> (error + token_doc) \<times> database" where
  "Token_save L db t =
     (if userModel t = [] then (Inl (ValidationError ''userModel'' ''required''), db)
      else if userModel t \<notin> set [''Admin'', ''Teacher'', ''Student'']
        then (Inl (ValidationError ''userModel'' ''enum''), db)
      else if token t = [] then (Inl (ValidationError ''token'' ''required''), db)
      else if tok_type t = [] then (Inl (ValidationError ''type'' ''required''), db)
      else if tok_type t \<notin> set [''password-reset'', ''email-verification'']
        then (Inl (ValidationError ''type'' ''enum''), db)
      else if ipAddress t = [] then (Inl (ValidationError ''ipAddress'' ''required''), db)
      else let t' = t\<lparr>token := sha256_hex L (token t)\<rparr>
           in if list_ex (\<lambda>x. tok_oid x = tok_oid t') (tokens db)
                then (Inl (DuplicateKeyError ''_id''), db)
              else if list_ex (\<lambda>x. token x = token t') (tokens db)
                then (Inl (DuplicateKeyError ''token''), db)
              else (Inr t', db\<lparr>tokens := tokens db @ [t']\<rparr>))"

text \<open>
  The index \<open>{expiresAt: 1}\<close> with \<open>expireAfterSeconds: 0\<close>: the database removes tokens
  whose expiry has passed, at times of its own choosing.
\<close>

definition expire_tokens :: "nat \<Rightarrow> database \<Rightarrow> database" where
  "expire_tokens clock db = db\<lparr>tokens := filter (\<lambda>t. clock < expiresAt t) (tokens db)\<rparr>"

fun delete_token :: "nat \<Rightarrow> token_doc list \<Rightarrow> token_doc list" where
  "delete_token i [] = []"
| "delete_token i (t # ts) = (if tok_oid t = i then ts else t # delete_token i ts)"

definition Token_deleteOne :: "database \<Rightarrow> nat \<Rightarrow> database" where
  "Token_deleteOne db i = db\<lparr>tokens := delete_token i (tokens db)\<rparr>"


section \<open>The authentication service (services/authService.js)\<close>

text \<open>
  \<open>userModels\<close> is an object literal indexed by the role; \<open>Object.entries\<close> lists its own
  entries in the order written. A role that names an inherited member yields that
  member, which is truthy but has no \<open>findById\<close> or \<open>create\<close>: calling it is a \<open>TypeError\<close>.
\<close>

definition userModels :: "(string \<times> model) list" where
  "userModels = [(ROLES_ADMIN, Admin), (ROLES_TEACHER, Teacher), (ROLES_STUDENT, Student)]"

definition userModels_get :: "string \<Rightarrow> model lookup" where
  "userModels_get r = js_get userModels r"

definition expiresIn :: "config \<Rightarrow> nat" where
  "expiresIn cfg = (case JWT_EXPIRE cfg of Some t \<Rightarrow> t | None \<Rightarrow> 7 * 24 * 60 * 60)"

definition generateToken :: "library \<Rightarrow> config \<Rightarrow> nat \<Rightarrow> nat option \<Rightarrow> string \<Rightarrow> error + string" where
  "generateToken L cfg clock userId r = jwt_sign L (userId, r) (JWT_SECRET cfg) (expiresIn cfg) clock"

fun findUserByEmail_loop :: "database \<Rightarrow> string \<Rightarrow> (string \<times> model) list \<Rightarrow> (document \<times> string) option" where
  "findUserByEmail_loop db e [] = None"
| "findUserByEmail_loop db e ((r, m) # rest) =
     (case Model_findOne_email m db e of
        Some user \<Rightarrow> Some (user, r)
      | None \<Rightarrow> findUserByEmail_loop db e rest)"

definition findUserByEmail :: "database \<Rightarrow> string \<Rightarrow> (document \<times> string) option" where
  "findUserByEmail db e = findUserByEmail_loop db e userModels"

text \<open>
  \<open>findUserById\<close> can be called with an \<open>id\<close> that is \<open>undefined\<close>; Mongoose turns
  \<open>findById(undefined)\<close> into a query for \<open>_id: null\<close>, which finds nothing.
\<close>

definition findUserById :: "database \<Rightarrow> nat option \<Rightarrow> string \<Rightarrow> error + document option" where
  "findUserById db i r =
     (case userModels_get r of
        Own m \<Rightarrow> Inr (case i of Some j \<Rightarrow> Model_findById m db j | None \<Rightarrow> None)
      | Inherited member \<Rightarrow> Inl TypeError
      | Undefined \<Rightarrow> Inr None)"

record user_info =
  info_id :: "nat option"
  info_email :: string
  info_firstName :: string
  info_lastName :: string
  info_role :: string

record auth_result =
  res_user :: user_info
  res_token :: string

record register_input =
  reg_email :: string
  reg_password :: string
  reg_firstName :: string
  reg_lastName :: string
  reg_role :: string
  reg_roleType :: "string option"
  reg_permissions :: "string list option"
  reg_sequenceId :: "string option"

definition user_info_of :: "user_doc \<Rightarrow> string \<Rightarrow> user_info" where
  "user_info_of user r =
     \<lparr>info_id = Some (oid user), info_email = email user, info_firstName = firstName user,
      info_lastName = lastName user, info_role = r\<rparr>"

text \<open>
  \<open>register\<close> returns its result or the error thrown, and the database as the call
  leaves it. For the role \<open>constructor\<close> the look-up in \<open>userModels\<close> yields the function
  \<open>Object\<close>, whose own \<open>create\<close> returns a fresh object that inherits from \<open>userData\<close>:
  nothing is stored, and the result carries the data as given and no id. Every other
  inherited member has no \<open>create\<close>.
\<close>

definition register ::
  "library \<Rightarrow> config \<Rightarrow> environment \<Rightarrow> database \<Rightarrow> register_input \<Rightarrow> (error + auth_result) \<times> database" where
  "register L cfg env db inp =
     (case findUserByEmail db (reg_email inp) of
        Some existingUser \<Rightarrow> (Inl (ErrorResponse ''User already exists with this email'' 400), db)
      | None \<Rightarrow>
          (case userModels_get (reg_role inp) of
             Undefined \<Rightarrow> (Inl (ErrorResponse ''Invalid role specified'' 400), db)
           | Inherited member \<Rightarrow>
               if member = ''constructor''
               then (case generateToken L cfg (now env) None (reg_role inp) of
                       Inl e \<Rightarrow> (Inl e, db)
                     | Inr tok \<Rightarrow>
                         (Inr \<lparr>res_user = \<lparr>info_id = None, info_email = reg_email inp,
                                            info_firstName = reg_firstName inp,
                                            info_lastName = reg_lastName inp,
                                            info_role = reg_role inp\<rparr>,
                               res_token = tok\<rparr>, db))
               else (Inl TypeError, db)
           | Own m \<Rightarrow>
               let hashedPassword = bcrypt_hash L (reg_password inp) (salt env);
                   userData = \<lparr>data_email = reg_email inp,
                               data_password = hashedPassword,
                               data_firstName = reg_firstName inp,
                               data_lastName = reg_lastName inp,
                               data_roleType = reg_roleType inp,
                               data_permissions = reg_permissions inp,
                               data_sequenceId = reg_sequenceId inp\<rparr>
               in case Model_create L env m db userData of
                    (Inl e, db') \<Rightarrow> (Inl e, db')
                  | (Inr user, db') \<Rightarrow>
                      (case generateToken L cfg (now env) (Some (oid user)) (reg_role inp) of
                         Inl e \<Rightarrow> (Inl e, db')
                       | Inr tok \<Rightarrow>
                           (Inr \<lparr>res_user = user_info_of user (reg_role inp), res_token = tok\<rparr>, db'))))"

definition login ::
  "library \<Rightarrow> config \<Rightarrow> environment \<Rightarrow> database \<Rightarrow> string \<Rightarrow> string \<Rightarrow> error + auth_result" where
  "login L cfg env db e pw =
     (case findUserByEmail db e of
        None \<Rightarrow> Inl (ErrorResponse ''Account not found'' 404)
      | Some ((m, user), r) \<Rightarrow>
          let isMatch = bcrypt_compare L pw (password user)
          in if \<not> isMatch then Inl (ErrorResponse ''Incorrect password'' 401)
             else (case generateToken L cfg (now env) (Some (oid user)) r of
                     Inl err \<Rightarrow> Inl err
                   | Inr tok \<Rightarrow> Inr \<lparr>res_user = user_info_of user r, res_token = tok\<rparr>))"

definition verifyToken :: "library \<Rightarrow> config \<Rightarrow> nat \<Rightarrow> string \<Rightarrow> error + jwt_payload" where
  "verifyToken L cfg clock tok =
     (case jwt_verify L tok (JWT_SECRET cfg) clock of
        Inr decoded \<Rightarrow> Inr decoded
      | Inl err \<Rightarrow> Inl (ErrorResponse ''Invalid token'' 401))"

text \<open>
  \<open>forgotPassword\<close>. The name of the model a document was loaded through is \<open>Admin\<close>,
  \<open>Teacher\<close> or \<open>Student\<close>. The token is stored before the mail is sent, so it stays when
  the mail fails.
\<close>

fun modelName :: "model \<Rightarrow> string" where
  "modelName Admin = ''Admin''"
| "modelName Teacher = ''Teacher''"
| "modelName Student = ''Student''"

definition forgotPassword ::
  "library \<Rightarrow> environment \<Rightarrow> database \<Rightarrow> string \<Rightarrow> string \<Rightarrow> string \<Rightarrow> (error + string) \<times> database" where
  "forgotPassword L env db e ip agent =
     (case findUserByEmail db e of
        None \<Rightarrow> (Inl (ErrorResponse ''No user found with this email'' 404), db)
      | Some ((m, user), r) \<Rightarrow>
          let resetToken = random_hex env;
              tokenDoc = \<lparr>tok_oid = new_id env, tok_user = oid user, userModel = modelName m,
                          token = resetToken, tok_type = ''password-reset'',
                          expiresAt = now env + 60 * 60 * 1000, used = False,
                          ipAddress = ip, userAgent = agent\<rparr>
          in case Token_save L db tokenDoc of
               (Inl err, db') \<Rightarrow> (Inl err, db')
             | (Inr saved, db') \<Rightarrow>
                 if mail_delivered env then (Inr ''Password reset email sent'', db')
                 else (Inl SendMailError, db'))"

text \<open>The query of \<open>resetPassword\<close>: hash, type and expiry.\<close>

definition find_reset_token :: "database \<Rightarrow> string \<Rightarrow> nat \<Rightarrow> token_doc option" where
  "find_reset_token db resetTokenHash clock =
     find (\<lambda>t. token t = resetTokenHash \<and> tok_type t = ''password-reset'' \<and> expiresAt t > clock)
          (tokens db)"

definition resetPassword ::
  "library \<Rightarrow> environment \<Rightarrow> database \<Rightarrow> string \<Rightarrow> string \<Rightarrow> (error + string) \<times> database" where
  "resetPassword L env db tok newPassword =
     (let resetTokenHash = sha256_hex L tok
      in case find_reset_token db resetTokenHash (now env) of
           None \<Rightarrow> (Inl (ErrorResponse ''Invalid or expired reset token'' 400), db)
         | Some tokenDoc \<Rightarrow>
             let roleFromModel = toLowerCase (userModel tokenDoc)
             in (case findUserById db (Some (tok_user tokenDoc)) roleFromModel of
                   Inl err \<Rightarrow> (Inl err, db)
                 | Inr None \<Rightarrow> (Inl (ErrorResponse ''User not found'' 404), db)
                 | Inr (Some (m, user)) \<Rightarrow>
                     let hashedPassword = bcrypt_hash L newPassword (salt env)
                     in (case Model_save L env m db (user\<lparr>password := hashedPassword\<rparr>) of
                           (Inl err, db') \<Rightarrow> (Inl err, db')
                         | (Inr saved, db') \<Rightarrow>
                             (Inr ''Password reset successful'', Token_deleteOne db' (tok_oid tokenDoc)))))"

section \<open>The stores the program produces\<close>

text \<open>
  The program writes the token collection in two places only: \<open>forgotPassword\<close> stores
  a token and \<open>resetPassword\<close> deletes one (\<open>markAsUsed\<close> has no caller); besides, the
  database expires tokens. Every other operation (the rest of the authentication service,
  the controllers of administrators, teachers and students) writes identity documents and
  collections that play no part here; \<open>WriteIdentities\<close> stands for all of them and may
  leave the three identity collections in any state. A run is a list of requests, each
  with what it takes from outside.
\<close>

datatype request =
    Register register_input
  | ForgotPassword string string string
  | ResetPassword string string
  | WriteIdentities "user_doc list" "user_doc list" "user_doc list"
  | ExpireTokens

fun handle :: "library \<Rightarrow> config \<Rightarrow> environment \<Rightarrow> request \<Rightarrow> database \<Rightarrow> database" where
  "handle L cfg env (Register inp) db = snd (register L cfg env db inp)"
| "handle L cfg env (ForgotPassword e ip agent) db = snd (forgotPassword L env db e ip agent)"
| "handle L cfg env (ResetPassword tok newPassword) db = snd (resetPassword L env db tok newPassword)"
| "handle L cfg env (WriteIdentities a t s) db = db\<lparr>admins := a, teachers := t, students := s\<rparr>"
| "handle L cfg env ExpireTokens db = expire_tokens (now env) db"

fun run :: "library \<Rightarrow> config \<Rightarrow> (environment \<times> request) list \<Rightarrow> database \<Rightarrow> database" where
  "run L cfg [] db = db"
| "run L cfg ((env, rq) # rest) db = run L cfg rest (handle L cfg env rq db)"

section \<open>Verifying a reset token without consuming it (controllers/auth.controller.js)\<close>

definition verifyResetToken :: "library \<Rightarrow> nat \<Rightarrow> database \<Rightarrow> string \<Rightarrow> error + token_doc" where
  "verifyResetToken L clock db tok =
     (if tok = [] then Inl (ErrorResponse ''Token is required'' 400)
      else let hashed = sha256_hex L tok
           in case find (\<lambda>t. token t = hashed \<and> tok_type t = ''password-reset'' \<and> used t = False \<and>
                              expiresAt t > clock) (tokens db) of
                None \<Rightarrow> Inl (ErrorResponse ''Invalid or expired token'' 400)
              | Some tokenDoc \<Rightarrow> Inr tokenDoc)"

section \<open>The authentication middleware (middlewares/auth.middleware.js)\<close>

text \<open>What the \<open>catch\<close> block of \<open>protect\<close> passes to \<open>next\<close> for a thrown error.\<close>

fun protect_catch :: "error \<Rightarrow> error" where
  "protect_catch (ErrorResponse msg code) =
     (if msg = ''Invalid token''
      then ErrorResponse ''Not authorized to access this route - invalid token'' 401
      else ErrorResponse msg code)"
| "protect_catch JsonWebTokenError = ErrorResponse ''Not authorized to access this route - invalid token'' 401"
| "protect_catch TokenExpiredError = ErrorResponse ''Not authorized to access this route - invalid token'' 401"
| "protect_catch (DuplicateKeyError k) =
     ErrorResponse ''Authentication service temporarily unavailable. Please try again.'' 503"
| "protect_catch e = ErrorResponse ''Not authorized to access this route'' 401"

text \<open>
  \<open>protect\<close> reads the \<open>Authorization\<close> header and returns what it passes to \<open>next\<close>
  together with \<open>req.user\<close> as it leaves it.
\<close>

definition protect ::
  "library \<Rightarrow> config \<Rightarrow> nat \<Rightarrow> database \<Rightarrow> string option \<Rightarrow> req_user option \<Rightarrow> outcome \<times> req_user option" where
  "protect L cfg clock db authorization req_user0 =
     (let tok = (case authorization of
                   None \<Rightarrow> None
                 | Some h \<Rightarrow> if h \<noteq> [] \<and> startsWith h ''Bearer'' then at_index (split CHR '' '' h) 1 else None)
      in case tok of
           None \<Rightarrow> (NextError (ErrorResponse ''Not authorized to access this route - no token found'' 401), req_user0)
         | Some t \<Rightarrow>
             if t = [] then (NextError (ErrorResponse ''Not authorized to access this route - no token found'' 401), req_user0)
             else (case verifyToken L cfg clock t of
                     Inl err \<Rightarrow> (NextError (protect_catch err), req_user0)
                   | Inr decoded \<Rightarrow>
                       (case findUserById db (jwt_id decoded) (jwt_role decoded) of
                          Inl err \<Rightarrow> (NextError (protect_catch err), req_user0)
                        | Inr None \<Rightarrow>
                            (NextError (ErrorResponse ''Not authorized to access this route - user not found'' 401), req_user0)
                        | Inr (Some (m, user)) \<Rightarrow>
                            (Next, Some \<lparr>user_id = oid user,
                                         user_email = email user,
                                         user_firstName = firstName user,
                                         user_lastName = lastName user,
                                         user_role = jwt_role decoded,
                                         user_roleType = None,
                                         user_permissions = None\<rparr>))))"


section \<open>What the libraries are assumed to do\<close>

text \<open>
  Of \<open>bcryptjs\<close>: a password verifies against every hash made from it, and a hash is
  60 characters long and starts with \<open>$2a$\<close>, \<open>$2b$\<close> or \<open>$2y$\<close>.
\<close>

definition bcrypt_contract :: "library \<Rightarrow> bool" where
  "bcrypt_contract L \<longleftrightarrow>
     (\<forall>pw s. bcrypt_compare L pw (bcrypt_hash L pw s) \<and>
             is_bcrypt_hash (bcrypt_hash L pw s) \<and>
             length (bcrypt_hash L pw s) = 60)"

text \<open>
  Of \<open>jsonwebtoken\<close>: signing with a secret that is set succeeds, and the token verifies
  under the same secret, to the payload signed, at every clock before its expiry.
\<close>

definition jwt_contract :: "library \<Rightarrow> bool" where
  "jwt_contract L \<longleftrightarrow>
     (\<forall>i r secret ttl t. secret \<noteq> [] \<longrightarrow>
        (\<exists>tok. jwt_sign L (i, r) secret ttl t = Inr tok \<and>
           (\<forall>t'. t' div 1000 < t div 1000 + ttl \<longrightarrow>
              jwt_verify L tok secret t' =
                Inr \<lparr>jwt_id = i, jwt_role = r, iat = t div 1000, exp = t div 1000 + ttl\<rparr>)))"

section \<open>A small library for concrete runs\<close>

text \<open>
  The concrete runs below need some library that meets the two contracts. This one
  pads the password into a 60-character string and writes the claims of a token in unary
  (an id \<open>i\<close> as \<open>i + 1\<close> strokes, no id as none).
\<close>

definition toy_hash :: "string \<Rightarrow> string \<Rightarrow> string" where
  "toy_hash pw s = ''$2a$10$'' @ take 53 (pw @ replicate 53 (CHR ''.''))"

definition toy_compare :: "string \<Rightarrow> string \<Rightarrow> bool" where
  "toy_compare pw h \<longleftrightarrow> h = toy_hash pw []"

definition unary :: "nat \<Rightarrow> string" where
  "unary n = replicate n (CHR ''1'')"

definition read_unary :: "string \<Rightarrow> nat" where
  "read_unary s = length (takeWhile (\<lambda>c. c = CHR ''1'') s)"

definition skip_unary :: "string \<Rightarrow> string" where
  "skip_unary s = drop 1 (dropWhile (\<lambda>c. c = CHR ''1'') s)"

definition toy_sign :: "nat option \<times> string \<Rightarrow> string \<Rightarrow> nat \<Rightarrow> nat \<Rightarrow> error + string" where
  "toy_sign payload secret ttl t =
     (if secret = [] then Inl JsonWebTokenError
      else Inr (secret @ ''.'' @ unary (case fst payload of None \<Rightarrow> 0 | Some i \<Rightarrow> Suc i) @ ''.'' @
                unary (t div 1000) @ ''.'' @ unary (t div 1000 + ttl) @ ''.'' @ snd payload))"

definition toy_verify :: "string \<Rightarrow> string \<Rightarrow> nat \<Rightarrow> error + jwt_payload" where
  "toy_verify tok secret t =
     (if secret = [] \<or> \<not> startsWith tok (secret @ ''.'') then Inl JsonWebTokenError
      else let s1 = drop (length secret + 1) tok;
               s2 = skip_unary s1;
               s3 = skip_unary s2
           in if read_unary s3 \<le> t div 1000 then Inl TokenExpiredError
              else Inr \<lparr>jwt_id = (case read_unary s1 of 0 \<Rightarrow> None | Suc i \<Rightarrow> Some i),
                        jwt_role = skip_unary s3,
                        iat = read_unary s2, exp = read_unary s3\<rparr>)"

definition toy_library :: library where
  "toy_library = \<lparr>bcrypt_hash = toy_hash, bcrypt_compare = toy_compare,
                   jwt_sign = toy_sign, jwt_verify = toy_verify, sha256_hex = rev\<rparr>"

definition toy_config :: config where
  "toy_config = \<lparr>JWT_SECRET = ''secret'', JWT_EXPIRE = Some 5\<rparr>"

section \<open>Notions the statements use\<close>

text \<open>The rank of a role in the hierarchy; 0 where the table gives no number.\<close>

definition rank :: "string \<Rightarrow> nat" where
  "rank r = (case js_get ROLE_HIERARCHY r of Own n \<Rightarrow> n | _ \<Rightarrow> 0)"

text \<open>
  What the token collection of a store the program produces looks like: no token is
  marked used, and no two tokens share a digest or an \<open>_id\<close>.
\<close>

definition tokens_unused :: "database \<Rightarrow> bool" where
  "tokens_unused db \<longleftrightarrow>
     list_all (\<lambda>t. \<not> used t) (tokens db) \<and>
     distinct (map token (tokens db)) \<and> distinct (map tok_oid (tokens db))"

section \<open>A sample database\<close>

text \<open>
  One super administrator and one student, with passwords hashed by the small library,
  and one unused reset token of the student that expires at clock 3600000.
\<close>

definition sample_admin :: user_doc where
  "sample_admin =
     \<lparr>oid = 1, email = ''root@x.com'', password = toy_hash ''rootpass1'' [],
      firstName = ''Root'', lastName = ''Admin'',
      roleType = Some ''super_admin'', permissions = ADMIN_PERMISSION_values,
      sequenceId = []\<rparr>"

definition sample_student :: user_doc where
  "sample_student =
     \<lparr>oid = 2, email = ''a@x.com'', password = toy_hash ''secret123'' [],
      firstName = ''A'', lastName = ''B'', roleType = None, permissions = [],
      sequenceId = ''26-100001''\<rparr>"

definition sample_token :: token_doc where
  "sample_token =
     \<lparr>tok_oid = 7, tok_user = 2, userModel = ''Student'', token = rev ''rawtoken'',
      tok_type = ''password-reset'', expiresAt = 3600000, used = False,
      ipAddress = ''127.0.0.1'', userAgent = ''unknown''\<rparr>"

definition sample_db :: database where
  "sample_db = \<lparr>admins = [sample_admin], teachers = [], students = [sample_student],
                 tokens = [sample_token]\<rparr>"

definition sample_env :: environment where
  "sample_env = \<lparr>now = 1000, year = 2026, salt = ''salt1'', hook_salt = ''salt2'', new_id = 3,
                  random_hex = ''rawtoken2'', mail_delivered = True\<rparr>"


text \<open>
  A registration the schema of its role accepts: the email matches the pattern of the
  schema once trimmed and lower-cased, both names are non-empty once trimmed, and for an
  admin the \<open>roleType\<close> and the normalized \<open>permissions\<close> given are values of their enums.
\<close>

definition valid_registration :: "register_input \<Rightarrow> bool" where
  "valid_registration inp \<longleftrightarrow>
     email_regex (email_setter (reg_email inp)) \<and>
     trim (reg_firstName inp) \<noteq> [] \<and>
     trim (reg_lastName inp) \<noteq> [] \<and>
     (reg_role inp = ROLES_ADMIN \<longrightarrow>
        (case reg_roleType inp of None \<Rightarrow> True | Some t \<Rightarrow> t \<in> set roleType_enum) \<and>
        list_all permission_valid
          (pre_validate (map JString (case reg_permissions inp of Some ps \<Rightarrow> ps | None \<Rightarrow> []))))"

text \<open>The sequence number a new document of the role gets: the one given, else a generated one.\<close>

definition assigned_sequenceId :: "environment \<Rightarrow> model \<Rightarrow> database \<Rightarrow> register_input \<Rightarrow> string" where
  "assigned_sequenceId env m db inp =
     (if m = Admin then []
      else pre_save_sequenceId env m db (case reg_sequenceId inp of Some i \<Rightarrow> i | None \<Rightarrow> []))"

text \<open>No stored document of the role's collection has that sequence number yet.\<close>

definition sequenceId_free :: "environment \<Rightarrow> database \<Rightarrow> register_input \<Rightarrow> bool" where
  "sequenceId_free env db inp \<longleftrightarrow>
     (case userModels_get (reg_role inp) of
        Own m \<Rightarrow>
          m = Admin \<or> \<not> list_ex (\<lambda>x. sequenceId x = assigned_sequenceId env m db inp) (collection m db)
      | _ \<Rightarrow> True)"

text \<open>
  A sequence number as the generators write it: decimal digits of the given width, and
  not the last number that width holds. The collection of a role is in order for a year
  when every sequence number that starts with the prefix of that year is of that form.
\<close>

definition canonical_number :: "nat \<Rightarrow> string \<Rightarrow> bool" where
  "canonical_number width s \<longleftrightarrow>
     length s = width \<and> list_all (is_digit 10) s \<and> digits_value 10 s + 1 < 10 ^ width"

definition sequence_prefix :: "model \<Rightarrow> nat \<Rightarrow> string" where
  "sequence_prefix m currentYear =
     (case m of
        Admin \<Rightarrow> []
      | Teacher \<Rightarrow> ''EMP-'' @ yearSuffix currentYear @ ''-''
      | Student \<Rightarrow> yearSuffix currentYear @ ''-'')"

definition sequence_width :: "model \<Rightarrow> nat" where
  "sequence_width m = (case m of Admin \<Rightarrow> 0 | Teacher \<Rightarrow> 5 | Student \<Rightarrow> 6)"

definition sequence_numbers_canonical :: "nat \<Rightarrow> model \<Rightarrow> database \<Rightarrow> bool" where
  "sequence_numbers_canonical currentYear m db \<longleftrightarrow>
     list_all (\<lambda>d. \<not> startsWith (sequenceId d) (sequence_prefix m currentYear) \<or>
                  canonical_number (sequence_width m)
                    (drop (length (sequence_prefix m currentYear)) (sequenceId d)))
       (collection m db)"

text \<open>
  The registration brings a sequence number that no stored document of the role has, or
  it brings none and the collection of the role is in order for the year. An admin has no
  sequence number.
\<close>

definition sequence_number_available :: "environment \<Rightarrow> database \<Rightarrow> register_input \<Rightarrow> bool" where
  "sequence_number_available env db inp \<longleftrightarrow>
     (case userModels_get (reg_role inp) of
        Own m \<Rightarrow>
          m = Admin \<or>
          (let given = (case reg_sequenceId inp of Some i \<Rightarrow> i | None \<Rightarrow> [])
           in if given = [] then sequence_numbers_canonical (year env) m db
              else \<not> list_ex (\<lambda>x. sequenceId x = given) (collection m db))
      | _ \<Rightarrow> True)"

text \<open>The document \<open>register\<close> stores for an input that is accepted.\<close>

definition registered_doc ::
  "library \<Rightarrow> environment \<Rightarrow> model \<Rightarrow> database \<Rightarrow> register_input \<Rightarrow> user_doc" where
  "registered_doc L env m db inp =
     \<lparr>oid = new_id env,
      email = email_setter (reg_email inp),
      password = bcrypt_hash L (reg_password inp) (salt env),
      firstName = trim (reg_firstName inp),
      lastName = trim (reg_lastName inp),
      roleType = (if m = Admin
                  then Some (case reg_roleType inp of Some t \<Rightarrow> t | None \<Rightarrow> ''academic_admin'')
                  else None),
      permissions = (if m = Admin
                     then map js_String (pre_validate (map JString
                            (case reg_permissions inp of Some ps \<Rightarrow> ps | None \<Rightarrow> [])))
                     else []),
      sequenceId = assigned_sequenceId env m db inp\<rparr>"

definition sample_registration :: register_input where
  "sample_registration =
     \<lparr>reg_email = ''B@x.com'', reg_password = ''secret123'', reg_firstName = ''A'',
      reg_lastName = ''B'', reg_role = ''student'', reg_roleType = None, reg_permissions = None,
      reg_sequenceId = None\<rparr>"

text \<open>
  Two further registrations of students, the first with a \<open>studentId\<close> of its own in the
  request body, and the student collection after that one and the sample registration
  have been accepted, in this order.
\<close>

definition numbered_registration :: register_input where
  "numbered_registration =
     \<lparr>reg_email = ''p@x.com'', reg_password = ''secret123'', reg_firstName = ''P'',
      reg_lastName = ''Q'', reg_role = ''student'', reg_roleType = None, reg_permissions = None,
      reg_sequenceId = Some ''26-99''\<rparr>"

definition third_registration :: register_input where
  "third_registration =
     \<lparr>reg_email = ''c@x.com'', reg_password = ''secret123'', reg_firstName = ''C'',
      reg_lastName = ''D'', reg_role = ''student'', reg_roleType = None, reg_permissions = None,
      reg_sequenceId = None\<rparr>"

definition crowded_db :: database where
  "crowded_db =
     sample_db\<lparr>students :=
       [sample_student,
        \<lparr>oid = 4, email = ''p@x.com'', password = toy_hash ''secret123'' ''salt1'',
         firstName = ''P'', lastName = ''Q'', roleType = None, permissions = [],
         sequenceId = ''26-99''\<rparr>,
        \<lparr>oid = 5, email = ''b@x.com'', password = toy_hash ''secret123'' ''salt1'',
         firstName = ''A'', lastName = ''B'', roleType = None, permissions = [],
         sequenceId = ''26-000100''\<rparr>]\<rparr>"

text \<open>
  A stored document that the validators of its schema accept when it is saved again
  with a new password hash.
\<close>

definition stored_doc_valid :: "model \<Rightarrow> user_doc \<Rightarrow> bool" where
  "stored_doc_valid m d \<longleftrightarrow>
     email_regex (email d) \<and> firstName d \<noteq> [] \<and> lastName d \<noteq> [] \<and>
     (m \<noteq> Admin \<longrightarrow> sequenceId d \<noteq> []) \<and>
     (m = Admin \<longrightarrow>
        (case roleType d of None \<Rightarrow> True | Some t \<Rightarrow> t \<in> set roleType_enum) \<and>
        list_all permission_valid (pre_validate (map JString (permissions d))))"

text \<open>
  Two variants of the sample database: one where the student who owns the reset token
  has been deleted, one where the token is marked as used.
\<close>

definition orphan_db :: database where
  "orphan_db = sample_db\<lparr>students := []\<rparr>"

definition used_db :: database where
  "used_db = sample_db\<lparr>tokens := [sample_token\<lparr>used := True\<rparr>]\<rparr>"

text \<open>
  The sample database before any token was stored, and the request for a reset token
  that the student makes at clock 1000.
\<close>

definition tokenless_db :: database where
  "tokenless_db = sample_db\<lparr>tokens := []\<rparr>"

definition sample_run :: "(environment \<times> request) list" where
  "sample_run = [(sample_env, ForgotPassword ''a@x.com'' ''127.0.0.1'' ''agent'')]"

text \<open>
  A third variant: the reset token belongs to the administrator, whose stored
  \<open>permissions\<close> hold a value from before the enum, which is no alias either.
\<close>

definition legacy_db :: database where
  "legacy_db = sample_db\<lparr>admins := [sample_admin\<lparr>permissions := [''reports'']\<rparr>],
                          tokens := [sample_token\<lparr>tok_user := 1, userModel := ''Admin''\<rparr>]\<rparr>"

section \<open>Facts for concrete runs and look-ups\<close>

lemmas string_eval = toLowerCase_def lower_char_def char_of_def bit_Suc_0_iff trim_def
  js_whitespace_def email_setter_def startsWith_def at_index_def

lemmas sample_defs = sample_db_def sample_admin_def sample_student_def sample_token_def
  sample_env_def toy_config_def

lemmas toy_defs = toy_library_def toy_hash_def toy_compare_def toy_sign_def toy_verify_def
  unary_def read_unary_def skip_unary_def


lemma toy_hash_length: "length (toy_hash pw s) = 60"
  by (simp add: toy_hash_def)

lemma toy_hash_bcrypt: "is_bcrypt_hash (toy_hash pw s)"
  by (simp add: toy_hash_def is_bcrypt_hash_def)

lemma toy_hash_nonempty: "toy_hash pw s \<noteq> []"
  by (simp add: toy_hash_def)



lemma read_unary_append: "read_unary (unary n @ CHR ''.'' # rest) = n"
  by (induction n) (simp_all add: read_unary_def unary_def)

lemma skip_unary_append: "skip_unary (unary n @ CHR ''.'' # rest) = rest"
  by (induction n) (simp_all add: skip_unary_def unary_def)

lemma toy_bcrypt_contract: "bcrypt_contract toy_library"
  by (simp add: bcrypt_contract_def toy_library_def toy_compare_def toy_hash_length toy_hash_bcrypt)
     (simp add: toy_hash_def)

lemma toy_jwt_contract: "jwt_contract toy_library"
  unfolding jwt_contract_def
  by (simp add: toy_library_def toy_sign_def toy_verify_def startsWith_def
      read_unary_append skip_unary_append Let_def split: option.splits)


lemma find_SomeD: "find P xs = Some x \<Longrightarrow> x \<in> set xs \<and> P x"
  by (induction xs) (auto split: if_splits)

lemma findUserByEmail_loop_None:
  "findUserByEmail_loop db e ms = None \<longleftrightarrow>
     (\<forall>(r, m) \<in> set ms. \<forall>d \<in> set (collection m db). email d \<noteq> email_setter e)"
  by (induction ms) (auto simp: Model_findOne_email_def find_None_iff split: option.splits)

lemma findUserByEmail_None:
  "findUserByEmail db e = None \<longleftrightarrow>
     (\<forall>d \<in> set (admins db @ teachers db @ students db). email d \<noteq> email_setter e)"
  unfolding findUserByEmail_def findUserByEmail_loop_None userModels_def by auto

lemma findUserByEmail_loop_Some:
  "findUserByEmail_loop db e ms = Some ((m, user), r) \<Longrightarrow>
     (r, m) \<in> set ms \<and> user \<in> set (collection m db) \<and> email user = email_setter e"
  by (induction ms) (auto simp: Model_findOne_email_def dest: find_SomeD split: option.splits)

lemma userModels_get_own:
  "(r, m) \<in> set userModels \<Longrightarrow> userModels_get r = Own m"
  by (auto simp: userModels_def userModels_get_def js_get_def ROLES_ADMIN_def ROLES_TEACHER_def
      ROLES_STUDENT_def)

lemma findUserByEmail_Some:
  assumes "findUserByEmail db e = Some ((m, user), r)"
  shows "user \<in> set (collection m db) \<and> email user = email_setter e \<and> userModels_get r = Own m"
  using findUserByEmail_loop_Some [OF assms [unfolded findUserByEmail_def]] userModels_get_own
  by blast



section \<open>Login\<close>

text \<open>
  C4. \<open>login(email, password)\<close> fails with 404 whenever no identity in any of the three
  collections has the email, and with 401 whenever the identity found (the first match,
  in the order admin, teacher, student) has a stored hash that the password does not
  verify against; the two status codes differ.
\<close>

theorem login_not_found_or_unauthorized:
  "(findUserByEmail db e = None \<longleftrightarrow>
      (\<forall>d \<in> set (admins db @ teachers db @ students db). email d \<noteq> email_setter e)) \<and>
   (findUserByEmail db e = None \<longrightarrow>
      login L cfg env db e pw = Inl (ErrorResponse ''Account not found'' 404)) \<and>
   (\<forall>m user r. findUserByEmail db e = Some ((m, user), r) \<longrightarrow>
      user \<in> set (collection m db) \<and> email user = email_setter e \<and>
      (\<not> bcrypt_compare L pw (password user) \<longrightarrow>
         login L cfg env db e pw = Inl (ErrorResponse ''Incorrect password'' 401))) \<and>
   statusCode (ErrorResponse ''Account not found'' 404) \<noteq>
   statusCode (ErrorResponse ''Incorrect password'' 401)"
proof -
  have a: "findUserByEmail db e = None \<longrightarrow>
      login L cfg env db e pw = Inl (ErrorResponse ''Account not found'' 404)"
    by (simp add: login_def)
  have b: "\<forall>m user r. findUserByEmail db e = Some ((m, user), r) \<longrightarrow>
      user \<in> set (collection m db) \<and> email user = email_setter e \<and>
      (\<not> bcrypt_compare L pw (password user) \<longrightarrow>
         login L cfg env db e pw = Inl (ErrorResponse ''Incorrect password'' 401))"
    using findUserByEmail_Some by (auto simp: login_def)
  show ?thesis using a b findUserByEmail_None by simp
qed

theorem login_not_found_or_unauthorized_witness:
  "login toy_library toy_config sample_env sample_db ''nouser@x.com'' ''anything'' =
     Inl (ErrorResponse ''Account not found'' 404) \<and>
   login toy_library toy_config sample_env sample_db ''a@x.com'' ''wrongpw'' =
     Inl (ErrorResponse ''Incorrect password'' 401)"
proof -
  have n: "findUserByEmail sample_db ''nouser@x.com'' = None"
    by (simp add: findUserByEmail_def userModels_def Model_findOne_email_def sample_defs string_eval)
  have s: "findUserByEmail sample_db ''a@x.com'' = Some ((Student, sample_student), ROLES_STUDENT)"
    by (simp add: findUserByEmail_def userModels_def Model_findOne_email_def sample_defs string_eval)
  have w: "\<not> bcrypt_compare toy_library ''wrongpw'' (password sample_student)"
    by (simp add: sample_defs toy_defs)
  from login_not_found_or_unauthorized [of sample_db "''nouser@x.com''" toy_library toy_config sample_env "''anything''"] n
  have 1: "login toy_library toy_config sample_env sample_db ''nouser@x.com'' ''anything'' =
     Inl (ErrorResponse ''Account not found'' 404)" by blast
  from login_not_found_or_unauthorized [of sample_db "''a@x.com''" toy_library toy_config sample_env "''wrongpw''"] s w
  have 2: "login toy_library toy_config sample_env sample_db ''a@x.com'' ''wrongpw'' =
     Inl (ErrorResponse ''Incorrect password'' 401)" by blast
  from 1 2 show ?thesis by simp
qed

section \<open>The request context after \<open>protect\<close>\<close>

lemma findUserById_Some:
  assumes "findUserById db i r = Inr (Some (m, d))"
  shows "userModels_get r = Own m \<and> d \<in> set (collection m db) \<and> i = Some (oid d)"
  using assms
  by (auto simp: findUserById_def Model_findById_def dest: find_SomeD
      split: lookup.splits option.splits)

lemma requirePermission_no_fields:
  assumes "user_roleType u = None" and "user_permissions u = None"
  shows "requirePermission p (Some u) =
           NextError (ErrorResponse (''Insufficient permissions. Required: '' @ p) 403)"
  using assms by (simp add: requirePermission_def permissions_include_def)

lemma protect_Next:
  assumes "protect L cfg clock db authorization ru0 = (Next, ru)"
  shows "\<exists>(decoded :: jwt_payload) m d. findUserById db (jwt_id decoded) (jwt_role decoded) = Inr (Some (m, d)) \<and>
           ru = Some \<lparr>user_id = oid d, user_email = email d, user_firstName = firstName d,
                      user_lastName = lastName d, user_role = jwt_role decoded,
                      user_roleType = None, user_permissions = None\<rparr>"
  using assms
  by (simp add: protect_def Let_def split: option.splits if_splits sum.splits prod.splits) blast

text \<open>
  C9. Whenever \<open>protect\<close> lets a request through, the context it attaches holds the id,
  email and names of a stored identity and the role of the token, and neither
  \<open>roleType\<close> nor \<open>permissions\<close>; so \<open>requirePermission(p)\<close> right after it passes on a
  403 for every permission \<open>p\<close>, for a stored super administrator too.
\<close>

theorem protect_context:
  assumes "protect L cfg clock db authorization ru0 = (Next, ru)"
  shows "\<exists>u m d. ru = Some u \<and> user_roleType u = None \<and> user_permissions u = None \<and>
           d \<in> set (collection m db) \<and> userModels_get (user_role u) = Own m \<and>
           user_id u = oid d \<and> user_email u = email d \<and>
           user_firstName u = firstName d \<and> user_lastName u = lastName d \<and>
           (\<forall>p. requirePermission p ru =
                  NextError (ErrorResponse (''Insufficient permissions. Required: '' @ p) 403))"
proof -
  from protect_Next [OF assms] obtain decoded :: jwt_payload and m d where
    f: "findUserById db (jwt_id decoded) (jwt_role decoded) = Inr (Some (m, d))" and
    r: "ru = Some \<lparr>user_id = oid d, user_email = email d, user_firstName = firstName d,
                      user_lastName = lastName d, user_role = jwt_role decoded,
                      user_roleType = None, user_permissions = None\<rparr>"
    by blast
  from findUserById_Some [OF f] have
    g: "userModels_get (jwt_role decoded) = Own m" "d \<in> set (collection m db)" by simp_all
  have p: "\<forall>p. requirePermission p ru =
                  NextError (ErrorResponse (''Insufficient permissions. Required: '' @ p) 403)"
    unfolding r by (simp add: requirePermission_no_fields)
  show ?thesis using r g p by auto
qed


theorem protect_context_witness:
  "roleType sample_admin = Some ''super_admin'' \<and>
   protect toy_library toy_config 2000 sample_db (Some ''Bearer secret.11.1.111111.admin'') None =
     (Next, Some \<lparr>user_id = 1, user_email = ''root@x.com'', user_firstName = ''Root'',
                  user_lastName = ''Admin'', user_role = ''admin'',
                  user_roleType = None, user_permissions = None\<rparr>) \<and>
   requirePermission ''manage_users''
     (Some \<lparr>user_id = 1, user_email = ''root@x.com'', user_firstName = ''Root'',
            user_lastName = ''Admin'', user_role = ''admin'',
            user_roleType = None, user_permissions = None\<rparr>) =
     NextError (ErrorResponse ''Insufficient permissions. Required: manage_users'' 403)"
proof -
  have t: "toy_verify ''secret.11.1.111111.admin'' ''secret'' 2000 =
             Inr \<lparr>jwt_id = Some 1, jwt_role = ''admin'', iat = 1, exp = 6\<rparr>"
    by (simp add: toy_defs string_eval)
  have h: "protect toy_library toy_config 2000 sample_db (Some ''Bearer secret.11.1.111111.admin'') None =
     (Next, Some \<lparr>user_id = 1, user_email = ''root@x.com'', user_firstName = ''Root'',
                  user_lastName = ''Admin'', user_role = ''admin'',
                  user_roleType = None, user_permissions = None\<rparr>)"
    by (simp add: protect_def verifyToken_def findUserById_def userModels_get_def userModels_def
        js_get_def Model_findById_def ROLES_ADMIN_def ROLES_TEACHER_def ROLES_STUDENT_def
        toy_library_def t sample_defs string_eval)
  from protect_context [OF h] have
    "requirePermission ''manage_users''
     (Some \<lparr>user_id = 1, user_email = ''root@x.com'', user_firstName = ''Root'',
            user_lastName = ''Admin'', user_role = ''admin'',
            user_roleType = None, user_permissions = None\<rparr>) =
     NextError (ErrorResponse (''Insufficient permissions. Required: '' @ ''manage_users'') 403)"
    by blast
  with h show ?thesis by (simp add: sample_admin_def)
qed

section \<open>The role and permission gates\<close>

lemma ROLE_HIERARCHY_own:
  "js_get ROLE_HIERARCHY ROLES_ADMIN = Own 3"
  "js_get ROLE_HIERARCHY ROLES_TEACHER = Own 2"
  "js_get ROLE_HIERARCHY ROLES_STUDENT = Own 1"
  by (simp_all add: js_get_def ROLE_HIERARCHY_def ROLES_ADMIN_def ROLES_TEACHER_def ROLES_STUDENT_def)

text \<open>
  C5. A request context with role \<open>admin\<close> and \<open>roleType = 'super_admin'\<close> passes
  \<open>requirePermission(p)\<close> and \<open>requireAnyPermission(ps)\<close> for every \<open>p\<close> and \<open>ps\<close>, whatever
  its \<open>permissions\<close> hold, absent ones included.
\<close>

theorem super_admin_bypass:
  assumes "user_role u = ROLES_ADMIN" and "user_roleType u = Some ''super_admin''"
  shows "requirePermission p (Some u) = Next \<and> requireAnyPermission ps (Some u) = Next"
  using assms by (simp add: requirePermission_def requireAnyPermission_def)

theorem super_admin_bypass_witness:
  "requirePermission ''manage_users''
     (Some \<lparr>user_id = 1, user_email = ''root@x.com'', user_firstName = ''R'', user_lastName = ''T'',
            user_role = ''admin'', user_roleType = Some ''super_admin'', user_permissions = Some []\<rparr>) = Next
   \<and> requireAnyPermission [''manage_users'', ''manage_roles'']
     (Some \<lparr>user_id = 1, user_email = ''root@x.com'', user_firstName = ''R'', user_lastName = ''T'',
            user_role = ''admin'', user_roleType = Some ''super_admin'', user_permissions = Some []\<rparr>) = Next"
  using super_admin_bypass [of "\<lparr>user_id = 1, user_email = ''root@x.com'', user_firstName = ''R'', user_lastName = ''T'',
            user_role = ''admin'', user_roleType = Some ''super_admin'', user_permissions = Some []\<rparr>"
            "''manage_users''" "[''manage_users'', ''manage_roles'']"]
  by (simp add: ROLES_ADMIN_def)

text \<open>
  C6. With the ranks admin = 3, teacher = 2, student = 1 of \<open>ROLE_HIERARCHY\<close>: for roles
  \<open>r\<close> and \<open>s\<close> among the three, \<open>requireMinRole(r)\<close> on an authenticated request of role
  \<open>s\<close> calls \<open>next()\<close> exactly when \<open>rank s \<ge> rank r\<close>, and otherwise passes a 403 error.
\<close>

theorem requireMinRole_hierarchy:
  assumes "r \<in> {ROLES_ADMIN, ROLES_TEACHER, ROLES_STUDENT}"
    and "user_role u \<in> {ROLES_ADMIN, ROLES_TEACHER, ROLES_STUDENT}"
  shows "rank ROLES_ADMIN = 3 \<and> rank ROLES_TEACHER = 2 \<and> rank ROLES_STUDENT = 1 \<and>
         (requireMinRole r (Some u) = Next \<longleftrightarrow> rank (user_role u) \<ge> rank r) \<and>
         (rank (user_role u) < rank r \<longrightarrow>
            requireMinRole r (Some u) =
              NextError (ErrorResponse (''Role '' @ [CHR 0x27] @ user_role u @ [CHR 0x27] @
                                        '' does not have sufficient privileges'') 403))"
  using assms by (auto simp: requireMinRole_def rank_def ROLE_HIERARCHY_own Let_def)

theorem requireMinRole_hierarchy_witness:
  "requireMinRole ''teacher''
     (Some \<lparr>user_id = 1, user_email = ''a@x.com'', user_firstName = ''A'', user_lastName = ''B'',
            user_role = ''admin'', user_roleType = None, user_permissions = None\<rparr>) = Next
   \<and> rank ''admin'' = 3 \<and> rank ''teacher'' = 2"
  using requireMinRole_hierarchy [of "''teacher''"
     "\<lparr>user_id = 1, user_email = ''a@x.com'', user_firstName = ''A'', user_lastName = ''B'',
            user_role = ''admin'', user_roleType = None, user_permissions = None\<rparr>"]
  by (simp add: ROLES_ADMIN_def ROLES_TEACHER_def ROLES_STUDENT_def)

text \<open>
  C10, as amended. An authenticated request whose role is outside admin, teacher and
  student passes \<open>requireMinRole(minRole)\<close> for every \<open>minRole\<close>, and no 403 is passed on,
  provided the role and \<open>minRole\<close> do not both name a member that an object literal
  inherits from \<open>Object.prototype\<close>. The rank of such a role is \<open>undefined\<close>, or a member
  that is not a number, and the comparison with the required rank is false.
\<close>

theorem requireMinRole_outside_hierarchy:
  assumes "user_role u \<notin> {ROLES_ADMIN, ROLES_TEACHER, ROLES_STUDENT}"
    and "user_role u \<notin> set object_prototype_keys \<or> minRole \<notin> set object_prototype_keys"
  shows "requireMinRole minRole (Some u) = Next \<and>
         (\<forall>msg. requireMinRole minRole (Some u) \<noteq> NextError (ErrorResponse msg 403))"
proof -
  have u: "map_of ROLE_HIERARCHY (user_role u) = None"
    using assms(1) by (simp add: ROLE_HIERARCHY_def)
  have "requireMinRole minRole (Some u) = Next"
  proof (cases "map_of ROLE_HIERARCHY minRole")
    case None
    then show ?thesis using u assms(2) by (auto simp: requireMinRole_def js_get_def)
  next
    case (Some n)
    then show ?thesis using u by (simp add: requireMinRole_def js_get_def)
  qed
  then show ?thesis by simp
qed

text \<open>
  The claim as first stated covers every role outside the three. The role \<open>constructor\<close>
  is one, its rank is the function \<open>Object\<close>, and against \<open>minRole = toString\<close> the two
  functions compare by the strings they convert to: \<open>function Object\<close> comes before
  \<open>function toString\<close>, and the gate answers 403.
\<close>

theorem requireMinRole_outside_hierarchy_counterexample:
  "''constructor'' \<notin> {ROLES_ADMIN, ROLES_TEACHER, ROLES_STUDENT} \<and>
   requireMinRole ''toString''
     (Some \<lparr>user_id = 1, user_email = ''g@x.com'', user_firstName = ''G'', user_lastName = ''H'',
            user_role = ''constructor'', user_roleType = None, user_permissions = None\<rparr>) =
   NextError (ErrorResponse ''Role 'constructor' does not have sufficient privileges'' 403)"
  by (simp add: requireMinRole_def js_get_def ROLE_HIERARCHY_def ROLES_ADMIN_def ROLES_TEACHER_def
      ROLES_STUDENT_def object_prototype_keys_def member_string_def)

theorem requireMinRole_outside_hierarchy_witness:
  "requireMinRole ''admin''
     (Some \<lparr>user_id = 1, user_email = ''g@x.com'', user_firstName = ''G'', user_lastName = ''H'',
            user_role = ''guest'', user_roleType = None, user_permissions = None\<rparr>) = Next \<and>
   requireMinRole ''teacher''
     (Some \<lparr>user_id = 1, user_email = ''g@x.com'', user_firstName = ''G'', user_lastName = ''H'',
            user_role = ''constructor'', user_roleType = None, user_permissions = None\<rparr>) = Next"
  using requireMinRole_outside_hierarchy [of
     "\<lparr>user_id = 1, user_email = ''g@x.com'', user_firstName = ''G'', user_lastName = ''H'',
            user_role = ''guest'', user_roleType = None, user_permissions = None\<rparr>" "''admin''"]
    requireMinRole_outside_hierarchy [of
     "\<lparr>user_id = 1, user_email = ''g@x.com'', user_firstName = ''G'', user_lastName = ''H'',
            user_role = ''constructor'', user_roleType = None, user_permissions = None\<rparr>" "''teacher''"]
  by (simp add: ROLES_ADMIN_def ROLES_TEACHER_def ROLES_STUDENT_def object_prototype_keys_def)

text \<open>
  A role that is none of the three and names no inherited member has no rank at all.
\<close>

lemma rank_undefined:
  assumes "r \<notin> {ROLES_ADMIN, ROLES_TEACHER, ROLES_STUDENT}" and "r \<notin> set object_prototype_keys"
  shows "js_get ROLE_HIERARCHY r = Undefined"
  using assms by (simp add: js_get_def ROLE_HIERARCHY_def)

section \<open>Permission normalization\<close>























text \<open>
  An array given at top level, as the controllers give it, never reaches the
  normalization: by the time the hook of the schema runs, the update has a \<open>$set\<close> (with
  \<open>updatedAt\<close>), the hook looks for \<open>permissions\<close> there and finds none. The alias then
  fails the enum validator, although the comment of the hook names the top-level form.
\<close>

lemma update_top_level_alias:
  "Admin_findByIdAndUpdate sample_db 1
      \<lparr>dollar_set = None, top_permissions = Some (PermArray [JString ''settings''])\<rparr> =
     (Inl (ValidationError ''permissions'' ''enum''), sample_db)"
  by (simp add: Admin_findByIdAndUpdate_def timestamps_on_update_def pre_findOneAndUpdate_def
      permission_valid_def ADMIN_PERMISSION_values_def ADMIN_PERMISSIONS_def)


section \<open>Sequence numbers in a collection that is in order\<close>

text \<open>
  Digit strings of one length are ordered as the numbers they denote, which is what the
  generators rely on when they sort by string.
\<close>

lemma append_less_append: "p @ a < p @ (b :: string) \<longleftrightarrow> a < b"
  by (induction p) simp_all

lemma digits_value_foldl:
  "foldl (\<lambda>acc c. acc * r + (case digit_of c of Some v \<Rightarrow> v | None \<Rightarrow> 0)) a cs =
     a * r ^ length cs + digits_value r cs"
proof (induction cs arbitrary: a)
  case Nil
  show ?case by (simp add: digits_value_def)
next
  case (Cons c cs)
  have "digits_value r (c # cs) =
          foldl (\<lambda>acc c. acc * r + (case digit_of c of Some v \<Rightarrow> v | None \<Rightarrow> 0))
            (case digit_of c of Some v \<Rightarrow> v | None \<Rightarrow> 0) cs"
    by (simp add: digits_value_def)
  then show ?case by (simp add: Cons.IH algebra_simps)
qed

lemma digits_value_Cons:
  "digits_value r (c # cs) =
     (case digit_of c of Some v \<Rightarrow> v | None \<Rightarrow> 0) * r ^ length cs + digits_value r cs"
  using digits_value_foldl [of r "case digit_of c of Some v \<Rightarrow> v | None \<Rightarrow> 0" cs]
  by (simp add: digits_value_def)

lemma digits_value_Nil [simp]: "digits_value r [] = 0"
  by (simp add: digits_value_def)

lemma is_digit_10: "is_digit 10 c \<longleftrightarrow> 48 \<le> (of_char c :: nat) \<and> (of_char c :: nat) \<le> 57"
  by (auto simp: is_digit_def digit_of_def Let_def split: option.splits if_splits)

lemma digit_of_decimal: "is_digit 10 c \<Longrightarrow> digit_of c = Some (of_char c - 48)"
  by (auto simp: is_digit_def digit_of_def Let_def split: option.splits if_splits)

lemma digits_value_bound:
  "list_all (is_digit 10) cs \<Longrightarrow> digits_value 10 cs < 10 ^ length cs"
proof (induction cs)
  case Nil then show ?case by simp
next
  case (Cons c cs)
  then have d: "is_digit 10 c" and IH: "digits_value 10 cs < 10 ^ length cs" by simp_all
  have "(of_char c :: nat) - 48 \<le> 9" using d unfolding is_digit_10 by arith
  then have m: "((of_char c :: nat) - 48) * 10 ^ length cs \<le> 9 * 10 ^ length cs"
    by (rule mult_right_mono) simp
  have "digits_value 10 (c # cs) = (of_char c - 48) * 10 ^ length cs + digits_value 10 cs"
    by (simp add: digits_value_Cons digit_of_decimal [OF d])
  also have "\<dots> < 10 * 10 ^ length cs" using m IH by linarith
  finally show ?case by simp
qed

lemma digit_strings_less:
  assumes "length a = length b" and "list_all (is_digit 10) a" and "list_all (is_digit 10) b"
    and "digits_value 10 a < digits_value 10 b"
  shows "a < b"
  using assms
proof (induction a b rule: list_induct2)
  case Nil
  then show ?case by simp
next
  case (Cons x xs y ys)
  from Cons.prems have dx: "is_digit 10 x" and dy: "is_digit 10 y"
    and ax: "list_all (is_digit 10) xs" and ay: "list_all (is_digit 10) ys" by simp_all
  let ?n = "length xs"
  have bx: "digits_value 10 xs < 10 ^ ?n" by (rule digits_value_bound [OF ax])
  have by': "digits_value 10 ys < 10 ^ ?n" using digits_value_bound [OF ay] Cons.hyps by simp
  have v: "(of_char x - 48) * 10 ^ ?n + digits_value 10 xs < (of_char y - 48) * 10 ^ ?n + digits_value 10 ys"
    using Cons.prems(3) Cons.hyps by (simp add: digits_value_Cons digit_of_decimal [OF dx] digit_of_decimal [OF dy])
  have le: "(of_char x :: nat) \<le> of_char y"
  proof (rule ccontr)
    assume "\<not> (of_char x :: nat) \<le> of_char y"
    then have "(of_char y :: nat) - 48 + 1 \<le> of_char x - 48" using dy unfolding is_digit_10 by arith
    then have "((of_char y :: nat) - 48 + 1) * 10 ^ ?n \<le> (of_char x - 48) * 10 ^ ?n"
      by (rule mult_right_mono) simp
    then show False using v by' by (simp add: algebra_simps)
  qed
  show ?case
  proof (cases "(of_char x :: nat) = of_char y")
    case True
    then have "x = y" by simp
    moreover have "digits_value 10 xs < digits_value 10 ys" using v True by simp
    ultimately show ?thesis using Cons.IH [OF ax ay] by simp
  next
    case False
    then have "(of_char x :: nat) < of_char y" using le by arith
    then have "x < y" by (simp only: less_char_def)
    then show ?thesis by simp
  qed
qed

text \<open>What \<open>toString\<close> and \<open>padStart\<close> write is read back by \<open>parseInt\<close>.\<close>

lemma digits_value_snoc:
  "digits_value r (cs @ [c]) = digits_value r cs * r + (case digit_of c of Some v \<Rightarrow> v | None \<Rightarrow> 0)"
  by (simp add: digits_value_def)

lemma digit_char: "k < 10 \<Longrightarrow> is_digit 10 (char_of (48 + k)) \<and> digit_of (char_of (48 + k)) = Some k"
  by (simp add: is_digit_def digit_of_def Let_def)

lemma decimal_digits: "list_all (is_digit 10) (decimal n)"
proof (induction n rule: decimal.induct)
  case (1 n)
  show ?case
  proof (cases "n < 10")
    case True
    then show ?thesis using digit_char [of n] by (subst decimal.simps) simp
  next
    case False
    have "n mod 10 < 10" by simp
    from digit_char [OF this] 1 [OF False] False show ?thesis
      by (subst decimal.simps) simp
  qed
qed

lemma digits_value_decimal: "digits_value 10 (decimal n) = n"
proof (induction n rule: decimal.induct)
  case (1 n)
  show ?case
  proof (cases "n < 10")
    case True
    then show ?thesis using digit_char [of n]
      by (subst decimal.simps) (simp add: digits_value_Cons)
  next
    case False
    have "n mod 10 < 10" by simp
    from digit_char [OF this] 1 [OF False] False show ?thesis
      by (subst decimal.simps) (simp add: digits_value_snoc)
  qed
qed

lemma length_decimal: "n < 10 ^ k \<Longrightarrow> 0 < k \<Longrightarrow> length (decimal n) \<le> k"
proof (induction n arbitrary: k rule: decimal.induct)
  case (1 n)
  show ?case
  proof (cases "n < 10")
    case True
    then show ?thesis using 1(3) by (subst decimal.simps) simp
  next
    case False
    then obtain j where k: "k = Suc j" using 1(3) by (cases k) simp_all
    have j: "0 < j" using False 1(2) k by (cases j) simp_all
    have "n div 10 < 10 ^ j" using 1(2) k by (simp add: less_mult_imp_div_less mult.commute)
    from 1(1) [OF False this j] False k show ?thesis
      by (subst decimal.simps) simp
  qed
qed

lemma digits_value_zeros: "digits_value 10 (replicate j (CHR ''0'') @ s) = digits_value 10 s"
  by (induction j) (simp_all add: digits_value_Cons digit_of_def)

lemma zeros_digits: "list_all (is_digit 10) (replicate j (CHR ''0''))"
  by (induction j) (simp_all add: is_digit_def digit_of_def)

lemma padStart_decimal:
  assumes "n < 10 ^ w" and "0 < w"
  shows "length (padStart w (decimal n)) = w"
    and "list_all (is_digit 10) (padStart w (decimal n))"
    and "digits_value 10 (padStart w (decimal n)) = n"
  using length_decimal [OF assms] decimal_digits [of n] zeros_digits
  by (simp_all add: padStart_def digits_value_zeros digits_value_decimal)

lemma to_double_small: "n < 9007199254740992 \<Longrightarrow> to_double (int n) = Num (int n)"
  by (simp add: to_double_def round_double_def excess_bits.simps)

lemma digit_not_sep: "is_digit 10 c \<Longrightarrow> c \<noteq> CHR ''-''"
  by (auto simp: is_digit_10)

lemma parseInt_digits:
  assumes "s \<noteq> []" and "list_all (is_digit 10) s"
  shows "parseInt (Some s) = to_double (int (digits_value 10 s))"
proof -
  from assms obtain c cs where s: "s = c # cs" and c: "is_digit 10 c" and cs: "list_all (is_digit 10) cs"
    by (cases s) simp_all
  have w: "dropWhile js_whitespace s = s"
    using c by (auto simp: s is_digit_10 js_whitespace_def)
  have sg: "take (Suc 0) s \<noteq> ''-''" "take (Suc 0) s \<noteq> ''+''"
    using c by (auto simp: s is_digit_10)
  have hx: "take 2 s \<noteq> ''0x''" "take 2 s \<noteq> ''0X''"
    using cs by (cases cs; auto simp: s is_digit_10)+
  have tw: "takeWhile (is_digit 10) s = s"
    using assms(2) by (simp add: takeWhile_eq_all_conv list_all_iff)
  show ?thesis
    by (simp add: parseInt_def Let_def w sg hx tw assms(1))
qed

text \<open>The parts of a sequence number, and the greatest one of a collection.\<close>

lemma split_no_sep: "sep \<notin> set s \<Longrightarrow> split sep s = [s]"
  by (induction s) auto

lemma split_append: "sep \<notin> set a \<Longrightarrow> split sep (a @ sep # b) = a # split sep b"
  by (induction a) auto

lemma greatest_sequenceId_None: "greatest_sequenceId ds = None \<Longrightarrow> ds = []"
  by (induction ds) (auto split: option.splits if_splits)

lemma greatest_sequenceId_Some:
  "greatest_sequenceId ds = Some e \<Longrightarrow> e \<in> set ds \<and> (\<forall>d \<in> set ds. sequenceId d \<le> sequenceId e)"
proof (induction ds arbitrary: e)
  case Nil then show ?case by simp
next
  case (Cons d ds)
  show ?case
  proof (cases "greatest_sequenceId ds")
    case None
    then have "ds = []" by (rule greatest_sequenceId_None)
    then show ?thesis using Cons.prems None by simp
  next
    case (Some g)
    from Cons.IH [OF Some] have g: "g \<in> set ds" "\<forall>x \<in> set ds. sequenceId x \<le> sequenceId g" by simp_all
    show ?thesis
    proof (cases "sequenceId g \<le> sequenceId d")
      case True
      then have "e = d" using Cons.prems Some by simp
      then show ?thesis using g True by auto
    next
      case False
      then have "e = g" using Cons.prems Some by simp
      then show ?thesis using g False by auto
    qed
  qed
qed

lemma startsWith_append: "startsWith (p @ s) p"
  by (simp add: startsWith_def)

lemma startsWith_split: "startsWith s p \<Longrightarrow> s = p @ drop (length p) s"
  unfolding startsWith_def by (metis append_take_drop_id)

lemma number_toString_small:
  "n < 9007199254740992 \<Longrightarrow> number_toString (Num (int n)) = decimal n"
  by (simp add: number_toString_def nat_toString_def)

text \<open>
  In a collection that is in order the greatest number of the year in the order of
  strings is the greatest number, below \<open>2^53\<close>, so the next one is computed exactly, has
  the same width and comes after every number stored: it is free.
\<close>

lemma next_number_Some:
  assumes "find_last P docs = Some e" and "sequenceId e \<noteq> []"
    and "at_index (split CHR ''-'' (sequenceId e)) k = Some n" and "parseInt (Some n) = Num i"
  shows "(case find_last P docs of
              None \<Rightarrow> Num s0
            | Some d \<Rightarrow>
                if sequenceId d = [] then Num s0
                else let lastNumber = parseInt (at_index (split CHR ''-'' (sequenceId d)) k)
                     in if \<not> isNaN lastNumber then number_plus lastNumber 1 else Num s0) =
         number_plus (Num i) 1"
  using assms by (simp add: isNaN_def)

lemma generated_number_free:
  assumes sp: "\<And>n. CHR ''-'' \<notin> set n \<Longrightarrow> at_index (split CHR ''-'' (P @ n)) k = Some n"
    and canon: "\<forall>d \<in> set docs. \<not> startsWith (sequenceId d) P \<or>
                  canonical_number w (drop (length P) (sequenceId d))"
    and w: "0 < w" "w \<le> 15" and P: "P \<noteq> []"
  shows "P @ padStart w (number_toString
           (case find_last P docs of
              None \<Rightarrow> Num s0
            | Some d \<Rightarrow>
                if sequenceId d = [] then Num s0
                else let lastNumber = parseInt (at_index (split CHR ''-'' (sequenceId d)) k)
                     in if \<not> isNaN lastNumber then number_plus lastNumber 1 else Num s0))
         \<notin> sequenceId ` set docs"
    (is "P @ ?g \<notin> _")
proof
  assume "P @ ?g \<in> sequenceId ` set docs"
  then obtain x where x: "x \<in> set docs" "sequenceId x = P @ ?g" by auto
  let ?F = "filter (\<lambda>d. startsWith (sequenceId d) P) docs"
  have xF: "x \<in> set ?F" using x by (simp add: startsWith_append)
  show False
  proof (cases "find_last P docs")
    case None
    then have "?F = []" unfolding find_last_def by (rule greatest_sequenceId_None)
    with xF show False by simp
  next
    case (Some e)
    from greatest_sequenceId_Some [OF Some [unfolded find_last_def]]
    have e: "e \<in> set ?F" and mx: "\<forall>d \<in> set ?F. sequenceId d \<le> sequenceId e" by simp_all
    let ?n = "drop (length P) (sequenceId e)"
    have se: "sequenceId e = P @ ?n" using e by (simp add: startsWith_split [symmetric])
    have ne: "sequenceId e \<noteq> []" using se P by auto
    have cn: "canonical_number w ?n" using e canon by auto
    then have len: "length ?n = w" and dg: "list_all (is_digit 10) ?n"
      and top: "digits_value 10 ?n + 1 < 10 ^ w"
      by (simp_all add: canonical_number_def)
    have nn: "?n \<noteq> []" using len w by auto
    have "CHR ''-'' \<notin> set ?n" using dg digit_not_sep by (auto simp: list_all_iff)
    from sp [OF this] have at: "at_index (split CHR ''-'' (sequenceId e)) k = Some ?n"
      using se by simp
    let ?v = "digits_value 10 ?n"
    have "(10::nat) ^ w \<le> 10 ^ 15" using w by (intro power_increasing) simp_all
    then have small: "?v + 1 < 9007199254740992" using top by simp
    have p: "parseInt (Some ?n) = Num (int ?v)"
      using small by (simp add: parseInt_digits [OF nn dg] to_double_small)
    have "number_plus (Num (int ?v)) 1 = to_double (int (?v + 1))"
      by (simp add: number_plus_def add.commute)
    also have "\<dots> = Num (int (?v + 1))" using small by (intro to_double_small) simp
    finally have q: "number_plus (Num (int ?v)) 1 = Num (int (?v + 1))" .
    have ts: "number_toString (Num (int (?v + 1))) = decimal (?v + 1)"
      by (rule number_toString_small) (use small in simp)
    have g: "?g = padStart w (decimal (?v + 1))"
      by (simp only: next_number_Some [OF Some ne at p] q ts)
    from padStart_decimal [OF top w(1)]
    have "length ?g = w" "list_all (is_digit 10) ?g" "digits_value 10 ?g = ?v + 1"
      unfolding g by simp_all
    then have "?n < ?g" using len dg by (intro digit_strings_less) simp_all
    then have "P @ ?n < P @ ?g" by (simp only: append_less_append)
    then have "sequenceId e < sequenceId x" by (simp only: x(2) se [symmetric])
    moreover have "sequenceId x \<le> sequenceId e" using mx xF by blast
    ultimately show False by simp
  qed
qed

text \<open>The two generators.\<close>

lemma yearSuffix_no_sep: "CHR ''-'' \<notin> set (yearSuffix y)"
proof -
  have "list_all (is_digit 10) (yearSuffix y)"
    using decimal_digits [of y] set_drop_subset [of "length (decimal y) - 2" "decimal y"]
    by (auto simp: yearSuffix_def Let_def list_all_iff)
  then show ?thesis using digit_not_sep by (auto simp: list_all_iff)
qed

lemma student_number_at:
  assumes "CHR ''-'' \<notin> set n"
  shows "at_index (split CHR ''-'' ((yearSuffix y @ ''-'') @ n)) 1 = Some n"
  using split_append [OF yearSuffix_no_sep, of y n] split_no_sep [OF assms]
  by (simp add: at_index_def)

lemma teacher_number_at:
  assumes "CHR ''-'' \<notin> set n"
  shows "at_index (split CHR ''-'' ((''EMP-'' @ yearSuffix y @ ''-'') @ n)) 2 = Some n"
proof -
  have "split CHR ''-'' (''EMP'' @ CHR ''-'' # (yearSuffix y @ CHR ''-'' # n)) =
          ''EMP'' # split CHR ''-'' (yearSuffix y @ CHR ''-'' # n)"
    by (rule split_append) simp
  then show ?thesis
    using split_append [OF yearSuffix_no_sep, of y n] split_no_sep [OF assms]
    by (simp add: at_index_def)
qed

lemma generateStudentId_free:
  assumes "sequence_numbers_canonical y Student db"
  shows "generateStudentId y (students db) \<notin> sequenceId ` set (students db)"
proof -
  have c: "\<forall>d \<in> set (students db). \<not> startsWith (sequenceId d) (yearSuffix y @ ''-'') \<or>
             canonical_number 6 (drop (length (yearSuffix y @ ''-'')) (sequenceId d))"
    using assms
    by (simp add: sequence_numbers_canonical_def sequence_prefix_def sequence_width_def list_all_iff)
  have "generateStudentId y (students db) =
          (yearSuffix y @ ''-'') @ padStart 6 (number_toString
           (case find_last (yearSuffix y @ ''-'') (students db) of
              None \<Rightarrow> Num 100001
            | Some d \<Rightarrow>
                if sequenceId d = [] then Num 100001
                else let lastNumber = parseInt (at_index (split CHR ''-'' (sequenceId d)) 1)
                     in if \<not> isNaN lastNumber then number_plus lastNumber 1 else Num 100001))"
    by (simp add: generateStudentId_def Let_def)
  then show ?thesis
    using generated_number_free [where P = "yearSuffix y @ ''-''" and k = 1 and w = 6
        and ?s0.0 = 100001, OF student_number_at c]
    by simp
qed

lemma generateEmployeeId_free:
  assumes "sequence_numbers_canonical y Teacher db"
  shows "generateEmployeeId y (teachers db) \<notin> sequenceId ` set (teachers db)"
proof -
  have c: "\<forall>d \<in> set (teachers db). \<not> startsWith (sequenceId d) (''EMP-'' @ yearSuffix y @ ''-'') \<or>
             canonical_number 5 (drop (length (''EMP-'' @ yearSuffix y @ ''-'')) (sequenceId d))"
    using assms
    by (simp add: sequence_numbers_canonical_def sequence_prefix_def sequence_width_def list_all_iff)
  have "generateEmployeeId y (teachers db) =
          (''EMP-'' @ yearSuffix y @ ''-'') @ padStart 5 (number_toString
           (case find_last (''EMP-'' @ yearSuffix y @ ''-'') (teachers db) of
              None \<Rightarrow> Num 10001
            | Some d \<Rightarrow>
                if sequenceId d = [] then Num 10001
                else let lastNumber = parseInt (at_index (split CHR ''-'' (sequenceId d)) 2)
                     in if \<not> isNaN lastNumber then number_plus lastNumber 1 else Num 10001))"
    by (simp add: generateEmployeeId_def Let_def)
  then show ?thesis
    using generated_number_free [where P = "''EMP-'' @ yearSuffix y @ ''-''" and k = 2 and w = 5
        and ?s0.0 = 10001, OF teacher_number_at c]
    by simp
qed

lemma available_sequenceId_free:
  assumes "sequence_number_available env db inp"
  shows "sequenceId_free env db inp"
proof (cases "userModels_get (reg_role inp)")
  case (Own m)
  let ?given = "case reg_sequenceId inp of Some i \<Rightarrow> i | None \<Rightarrow> []"
  show ?thesis
  proof (cases "m = Admin")
    case True
    then show ?thesis using Own by (simp add: sequenceId_free_def)
  next
    case False
    have av: "if ?given = [] then sequence_numbers_canonical (year env) m db
              else \<not> list_ex (\<lambda>x. sequenceId x = ?given) (collection m db)"
      using assms Own False by (simp add: sequence_number_available_def Let_def)
    have "assigned_sequenceId env m db inp \<notin> sequenceId ` set (collection m db)"
    proof (cases "?given = []")
      case True
      with av have c: "sequence_numbers_canonical (year env) m db" by simp
      show ?thesis
      proof (cases m)
        case Admin
        then show ?thesis using False by simp
      next
        case Teacher
        then show ?thesis
          using generateEmployeeId_free [of "year env" db] c True
          by (simp add: assigned_sequenceId_def pre_save_sequenceId_def)
      next
        case Student
        then show ?thesis
          using generateStudentId_free [of "year env" db] c True
          by (simp add: assigned_sequenceId_def pre_save_sequenceId_def)
      qed
    next
      case g: False
      then have "assigned_sequenceId env m db inp = ?given"
        using False by (cases m) (simp_all add: assigned_sequenceId_def pre_save_sequenceId_def)
      then show ?thesis using av g by (auto simp: list_ex_iff)
    qed
    then have "\<forall>x \<in> set (collection m db). sequenceId x \<noteq> assigned_sequenceId env m db inp"
      by (metis imageI)
    then show ?thesis using Own by (simp add: sequenceId_free_def list_ex_iff)
  qed
qed (simp_all add: sequenceId_free_def)


section \<open>Registration\<close>

lemma email_regex_nonempty: "email_regex s \<Longrightarrow> s \<noteq> []"
  by (auto simp: email_regex_def)

lemma find_append_new:
  "\<forall>x \<in> set xs. \<not> P x \<Longrightarrow> P d \<Longrightarrow> find P (xs @ [d]) = Some d"
  by (induction xs) auto

lemma role_model_cases:
  assumes "(r, m) \<in> set userModels"
  obtains "r = ROLES_ADMIN" "m = Admin" | "r = ROLES_TEACHER" "m = Teacher"
        | "r = ROLES_STUDENT" "m = Student"
  using assms by (auto simp: userModels_def)

lemma role_in_userModels:
  assumes "r \<in> {ROLES_ADMIN, ROLES_TEACHER, ROLES_STUDENT}"
  obtains m where "(r, m) \<in> set userModels"
  using assms by (auto simp: userModels_def)

lemma model_admin_iff:
  assumes "(r, m) \<in> set userModels"
  shows "m = Admin \<longleftrightarrow> r = ROLES_ADMIN"
  using assms
  by (auto simp: userModels_def ROLES_ADMIN_def ROLES_TEACHER_def ROLES_STUDENT_def)

lemma validate_registered:
  assumes "bcrypt_contract L" and "(reg_role inp, m) \<in> set userModels"
    and "valid_registration inp"
  shows "validate_doc m
           ((registered_doc L env m db inp)\<lparr>permissions := ps, sequenceId := sid\<rparr>)
           (if m = Admin then pre_validate (map JString
                  (case reg_permissions inp of Some ps \<Rightarrow> ps | None \<Rightarrow> []))
            else qs) = None"
proof -
  let ?h = "bcrypt_hash L (reg_password inp) (salt env)"
  have len: "length ?h = 60" using assms(1) by (simp add: bcrypt_contract_def)
  then have ne: "?h \<noteq> []" by auto
  have min: "\<not> length ?h < password_minlength m"
    using len by (cases m) (simp_all add: password_minlength_def)
  have em: "email_regex (email_setter (reg_email inp))" "email_setter (reg_email inp) \<noteq> []"
    using assms(3) email_regex_nonempty by (auto simp: valid_registration_def)
  have nm: "trim (reg_firstName inp) \<noteq> []" "trim (reg_lastName inp) \<noteq> []"
    using assms(3) by (auto simp: valid_registration_def)
  have ad: "m = Admin \<Longrightarrow>
      (case reg_roleType inp of None \<Rightarrow> True | Some t \<Rightarrow> t \<in> set roleType_enum) \<and>
      list_all permission_valid
          (pre_validate (map JString (case reg_permissions inp of Some ps \<Rightarrow> ps | None \<Rightarrow> [])))"
    using assms(3) model_admin_iff [OF assms(2)] by (simp add: valid_registration_def)
  have rt: "m = Admin \<Longrightarrow> (case reg_roleType inp of Some t \<Rightarrow> t | None \<Rightarrow> ''academic_admin'') \<in> set roleType_enum"
    using ad by (auto simp: roleType_enum_def split: option.splits)
  show ?thesis
    using ne min em nm ad rt
    by (simp add: validate_doc_def registered_doc_def)
qed


lemma prepare_save_registered:
  assumes "bcrypt_contract L" and "(reg_role inp, m) \<in> set userModels"
    and "valid_registration inp"
  shows "prepare_save L env m db
           \<lparr>oid = new_id env, email = email_setter (reg_email inp),
            password = bcrypt_hash L (reg_password inp) (salt env),
            firstName = trim (reg_firstName inp), lastName = trim (reg_lastName inp),
            roleType = (if m = Admin
                        then Some (case reg_roleType inp of Some t \<Rightarrow> t | None \<Rightarrow> ''academic_admin'')
                        else None),
            permissions = (if m = Admin
                           then (case reg_permissions inp of Some ps \<Rightarrow> ps | None \<Rightarrow> [])
                           else []),
            sequenceId = (if m = Admin then []
                          else (case reg_sequenceId inp of Some i \<Rightarrow> i | None \<Rightarrow> []))\<rparr> =
         Inr (registered_doc L env m db inp)"
proof -
  let ?h = "bcrypt_hash L (reg_password inp) (salt env)"
  have h: "is_bcrypt_hash ?h" "length ?h = 60" using assms(1) by (simp_all add: bcrypt_contract_def)
  then have ne: "?h \<noteq> []" by auto
  have ps: "pre_save_password L env ?h = ?h"
    using h ne by (simp add: pre_save_password_def)
  have v: "validate_doc m
           ((registered_doc L env m db inp)\<lparr>permissions := (if m = Admin
                           then (case reg_permissions inp of Some ps \<Rightarrow> ps | None \<Rightarrow> [])
                           else []),
              sequenceId := (if m = Admin then []
                          else (case reg_sequenceId inp of Some i \<Rightarrow> i | None \<Rightarrow> []))\<rparr>)
           (if m = Admin then pre_validate (map JString
                  (case reg_permissions inp of Some ps \<Rightarrow> ps | None \<Rightarrow> []))
            else map JString []) = None"
    by (rule validate_registered [OF assms])
  show ?thesis
  proof (cases "m = Admin")
    case True
    with v ps show ?thesis
      by (simp add: prepare_save_def registered_doc_def assigned_sequenceId_def
          pre_save_sequenceId_def)
  next
    case False
    with v ps show ?thesis
      by (simp add: prepare_save_def registered_doc_def assigned_sequenceId_def)
  qed
qed

lemma fresh_collection:
  assumes "findUserByEmail db e = None"
  shows "\<forall>d \<in> set (collection m db). email d \<noteq> email_setter e"
  using assms unfolding findUserByEmail_None by (cases m) auto

lemma Model_create_registered:
  assumes "bcrypt_contract L" and "(reg_role inp, m) \<in> set userModels"
    and "valid_registration inp" and "findUserByEmail db (reg_email inp) = None"
    and "sequenceId_free env db inp"
  shows "Model_create L env m db
           \<lparr>data_email = reg_email inp,
            data_password = bcrypt_hash L (reg_password inp) (salt env),
            data_firstName = reg_firstName inp, data_lastName = reg_lastName inp,
            data_roleType = reg_roleType inp, data_permissions = reg_permissions inp,
            data_sequenceId = reg_sequenceId inp\<rparr> =
         (Inr (registered_doc L env m db inp),
          set_collection m (collection m db @ [registered_doc L env m db inp]) db)"
proof -
  have "\<not> list_ex (\<lambda>x. email x = email (registered_doc L env m db inp)) (collection m db)"
    using fresh_collection [OF assms(4), of m]
    by (auto simp: list_ex_iff registered_doc_def)
  moreover have "m = Admin \<or>
      \<not> list_ex (\<lambda>x. sequenceId x = sequenceId (registered_doc L env m db inp)) (collection m db)"
    using assms(5) userModels_get_own [OF assms(2)]
    by (simp add: sequenceId_free_def registered_doc_def)
  ultimately have dup: "duplicate_key m (registered_doc L env m db inp) (collection m db) = None"
    by (auto simp: duplicate_key_def)
  note p = prepare_save_registered [OF assms(1,2,3), of env db]
  show ?thesis
  proof (cases "m = Admin")
    case True
    with p dup show ?thesis by (simp add: Model_create_def)
  next
    case False
    with p dup show ?thesis by (simp add: Model_create_def)
  qed
qed


lemma findUserByEmail_after_create:
  assumes "findUserByEmail db e = None" and "(r, m) \<in> set userModels"
    and "email d = email_setter e"
  shows "findUserByEmail (set_collection m (collection m db @ [d]) db) e = Some ((m, d), r)"
proof -
  note f = fresh_collection [OF assms(1)]
  have n: "\<And>m'. find (\<lambda>x. email x = email_setter e) (collection m' db) = None"
    using f by (simp add: find_None_iff)
  have s: "\<And>m'. find (\<lambda>x. email x = email_setter e) (collection m' db @ [d]) = Some d"
    using f assms(3) by (simp add: find_append_new)
  from assms(2) show ?thesis
  proof (cases rule: role_model_cases)
    case 1
    then show ?thesis
      using n [of Admin] n [of Teacher] n [of Student] s [of Admin]
      by (simp add: findUserByEmail_def userModels_def Model_findOne_email_def)
  next
    case 2
    then show ?thesis
      using n [of Admin] n [of Teacher] n [of Student] s [of Teacher]
      by (simp add: findUserByEmail_def userModels_def Model_findOne_email_def)
  next
    case 3
    then show ?thesis
      using n [of Admin] n [of Teacher] n [of Student] s [of Student]
      by (simp add: findUserByEmail_def userModels_def Model_findOne_email_def)
  qed
qed

lemma generateToken_ok:
  assumes "jwt_contract L" and "JWT_SECRET cfg \<noteq> []"
  obtains tok where "generateToken L cfg t i r = Inr tok"
    and "\<And>t'. t' div 1000 < t div 1000 + expiresIn cfg \<Longrightarrow>
           verifyToken L cfg t' tok =
             Inr \<lparr>jwt_id = i, jwt_role = r, iat = t div 1000, exp = t div 1000 + expiresIn cfg\<rparr>"
proof -
  from assms obtain tok where
    a: "jwt_sign L (i, r) (JWT_SECRET cfg) (expiresIn cfg) t = Inr tok" and
    b: "\<forall>t'. t' div 1000 < t div 1000 + expiresIn cfg \<longrightarrow>
          jwt_verify L tok (JWT_SECRET cfg) t' =
            Inr \<lparr>jwt_id = i, jwt_role = r, iat = t div 1000, exp = t div 1000 + expiresIn cfg\<rparr>"
    unfolding jwt_contract_def by blast
  show ?thesis
    using a b by (intro that [of tok]) (simp_all add: generateToken_def verifyToken_def)
qed

lemma register_accepts:
  assumes "bcrypt_contract L" and "jwt_contract L" and "JWT_SECRET cfg \<noteq> []"
    and "(reg_role inp, m) \<in> set userModels"
    and "valid_registration inp" and "findUserByEmail db (reg_email inp) = None"
    and "sequenceId_free env db inp"
  shows "\<exists>tok. register L cfg env db inp =
           (Inr \<lparr>res_user = user_info_of (registered_doc L env m db inp) (reg_role inp), res_token = tok\<rparr>,
            set_collection m (collection m db @ [registered_doc L env m db inp]) db) \<and>
           generateToken L cfg (now env) (Some (new_id env)) (reg_role inp) = Inr tok"
proof -
  from generateToken_ok [OF assms(2,3)] obtain tok where
    g: "generateToken L cfg (now env) (Some (new_id env)) (reg_role inp) = Inr tok"
    by blast
  have o: "oid (registered_doc L env m db inp) = new_id env" by (simp add: registered_doc_def)
  have u: "userModels_get (reg_role inp) = Own m"
    by (rule userModels_get_own [OF assms(4)])
  show ?thesis
    using g o u assms(6) Model_create_registered [OF assms(1,4,5,6,7)]
    by (simp add: register_def)
qed

lemma register_existing:
  assumes "findUserByEmail db (reg_email inp) \<noteq> None"
  shows "register L cfg env db inp = (Inl (ErrorResponse ''User already exists with this email'' 400), db)"
  using assms by (auto simp: register_def)


lemma sample_registration_valid: "valid_registration sample_registration"
  by (simp add: valid_registration_def sample_registration_def ROLES_ADMIN_def
      email_regex_def string_eval)

lemma sample_registration_fresh: "findUserByEmail sample_db (reg_email sample_registration) = None"
  by (simp add: findUserByEmail_def userModels_def Model_findOne_email_def sample_registration_def
      sample_defs string_eval)

lemma sample_registration_role:
  "reg_role sample_registration \<in> {ROLES_ADMIN, ROLES_TEACHER, ROLES_STUDENT}"
  by (simp add: sample_registration_def ROLES_STUDENT_def)

lemma sample_secret: "JWT_SECRET toy_config \<noteq> []"
  by (simp add: toy_config_def)

lemma Model_create_success:
  assumes "Model_create L env m db data = (Inr d, db')"
  shows "db' = set_collection m (collection m db @ [d]) db \<and>
         email d = email_setter (data_email data) \<and> oid d = new_id env"
  using assms
  by (auto simp: Model_create_def prepare_save_def Let_def split: option.splits sum.splits)

lemma register_success:
  assumes "register L cfg env db inp = (Inr res, db')" and "(reg_role inp, m) \<in> set userModels"
  obtains user where "findUserByEmail db (reg_email inp) = None"
    and "db' = set_collection m (collection m db @ [user]) db"
    and "email user = email_setter (reg_email inp)" and "oid user = new_id env"
    and "generateToken L cfg (now env) (Some (new_id env)) (reg_role inp) = Inr (res_token res)"
    and "res_user res = user_info_of user (reg_role inp)"
proof -
  let ?data = "\<lparr>data_email = reg_email inp,
            data_password = bcrypt_hash L (reg_password inp) (salt env),
            data_firstName = reg_firstName inp, data_lastName = reg_lastName inp,
            data_roleType = reg_roleType inp, data_permissions = reg_permissions inp,
            data_sequenceId = reg_sequenceId inp\<rparr>"
  have u: "userModels_get (reg_role inp) = Own m" by (rule userModels_get_own [OF assms(2)])
  have f: "findUserByEmail db (reg_email inp) = None"
    using assms(1) by (auto simp: register_def split: option.splits)
  obtain r1 db1 where c: "Model_create L env m db ?data = (r1, db1)" by (cases "Model_create L env m db ?data")
  from assms(1) f u c obtain user where
    r1: "r1 = Inr user" and db1: "db1 = db'" and
    g: "generateToken L cfg (now env) (Some (oid user)) (reg_role inp) = Inr (res_token res)" and
    ru: "res_user res = user_info_of user (reg_role inp)"
    by (auto simp: register_def Let_def split: sum.splits)
  from Model_create_success [OF c [unfolded r1 db1]] g ru f show ?thesis
    by (intro that [of user]) simp_all
qed

lemma register_sequence_collision:
  assumes "bcrypt_contract L" and "(reg_role inp, m) \<in> set userModels"
    and "valid_registration inp" and "findUserByEmail db (reg_email inp) = None"
    and "\<not> sequenceId_free env db inp"
  shows "register L cfg env db inp =
           (Inl (DuplicateKeyError (if m = Student then ''studentId'' else ''employeeId'')), db)"
proof -
  have u: "userModels_get (reg_role inp) = Own m" by (rule userModels_get_own [OF assms(2)])
  have na: "m \<noteq> Admin" using assms(5) u by (auto simp: sequenceId_free_def)
  have "\<not> list_ex (\<lambda>x. email x = email (registered_doc L env m db inp)) (collection m db)"
    using fresh_collection [OF assms(4), of m]
    by (auto simp: list_ex_iff registered_doc_def)
  moreover have "list_ex (\<lambda>x. sequenceId x = sequenceId (registered_doc L env m db inp)) (collection m db)"
    using assms(5) u by (simp add: sequenceId_free_def registered_doc_def)
  ultimately have dup: "duplicate_key m (registered_doc L env m db inp) (collection m db) =
      Some (DuplicateKeyError (if m = Student then ''studentId'' else ''employeeId''))"
    using na by (simp add: duplicate_key_def)
  note p = prepare_save_registered [OF assms(1,2,3), of env db]
  have "Model_create L env m db
           \<lparr>data_email = reg_email inp,
            data_password = bcrypt_hash L (reg_password inp) (salt env),
            data_firstName = reg_firstName inp, data_lastName = reg_lastName inp,
            data_roleType = reg_roleType inp, data_permissions = reg_permissions inp,
            data_sequenceId = reg_sequenceId inp\<rparr> =
         (Inl (DuplicateKeyError (if m = Student then ''studentId'' else ''employeeId'')), db)"
    using p dup na by (simp add: Model_create_def)
  then show ?thesis using u assms(4) by (simp add: register_def)
qed

lemma generateStudentId_eval:
  assumes "find_last (yearSuffix y @ ''-'') studs = Some d" and "sequenceId d \<noteq> []"
    and "at_index (split CHR ''-'' (sequenceId d)) 1 = Some n"
    and "parseInt (Some n) = Num (int v)" and "v + 1 < 9007199254740992"
  shows "generateStudentId y studs = yearSuffix y @ ''-'' @ padStart 6 (decimal (v + 1))"
proof -
  have "number_plus (Num (int v)) 1 = to_double (int (v + 1))"
    by (simp add: number_plus_def add.commute)
  also have "\<dots> = Num (int (v + 1))" by (rule to_double_small [OF assms(5)])
  finally have q: "number_plus (Num (int v)) 1 = Num (int (v + 1))" .
  have ts: "number_toString (Num (int (v + 1))) = decimal (v + 1)"
    by (rule number_toString_small [OF assms(5)])
  show ?thesis
    unfolding generateStudentId_def Let_def
    by (simp only: next_number_Some [OF assms(1,2,3,4), unfolded Let_def] q ts)
qed

lemma year_2026: "yearSuffix 2026 = ''26''"
  by (simp add: yearSuffix_def decimal.simps char_of_def bit_Suc_0_iff)

lemma sample_generated_id: "generateStudentId 2026 [sample_student] = ''26-100002''"
proof -
  have l: "find_last (yearSuffix 2026 @ ''-'') [sample_student] = Some sample_student"
    by (simp add: year_2026 find_last_def sample_student_def startsWith_def)
  have n: "sequenceId sample_student \<noteq> []" by (simp add: sample_student_def)
  have a: "at_index (split CHR ''-'' (sequenceId sample_student)) 1 = Some ''100001''"
    by (simp add: sample_student_def at_index_def)
  have p: "parseInt (Some ''100001'') = Num (int 100001)"
    by (simp add: parseInt_digits is_digit_10 to_double_small [of 100001, simplified]
        digits_value_Cons digit_of_def)
  have "generateStudentId 2026 [sample_student] =
          yearSuffix 2026 @ ''-'' @ padStart 6 (decimal (100001 + 1))"
    by (rule generateStudentId_eval [OF l n a p]) simp
  then show ?thesis
    by (simp add: year_2026 padStart_def decimal.simps char_of_def bit_Suc_0_iff)
qed

lemma sample_registration_available:
  "sequence_number_available sample_env sample_db sample_registration"
  by (simp add: sequence_number_available_def userModels_get_def userModels_def js_get_def
      ROLES_ADMIN_def ROLES_TEACHER_def ROLES_STUDENT_def sample_registration_def sample_env_def
      sample_db_def sample_student_def sequence_numbers_canonical_def sequence_prefix_def
      sequence_width_def year_2026 startsWith_def canonical_number_def is_digit_10
      digits_value_Cons digit_of_def)

text \<open>
  Registration followed by login, when the sequence number is available: \<open>register\<close>
  succeeds, and \<open>login\<close> with the same email and password on the resulting database
  succeeds and returns a token that \<open>verifyToken\<close> accepts at every clock before the
  token's expiry, with the identity's id and the role as claims. The libraries are
  assumed to meet their contracts and the signing secret to be set.
\<close>

lemma register_then_login:
  assumes "bcrypt_contract L" and "jwt_contract L" and "JWT_SECRET cfg \<noteq> []"
    and "reg_role inp \<in> {ROLES_ADMIN, ROLES_TEACHER, ROLES_STUDENT}"
    and "valid_registration inp"
    and "findUserByEmail db (reg_email inp) = None"
    and "sequence_number_available env db inp"
    and "clock div 1000 < now env2 div 1000 + expiresIn cfg"
  shows "\<exists>res db' res2 (claims :: jwt_payload).
           register L cfg env db inp = (Inr res, db') \<and>
           info_id (res_user res) = Some (new_id env) \<and>
           login L cfg env2 db' (reg_email inp) (reg_password inp) = Inr res2 \<and>
           res_user res2 = res_user res \<and>
           verifyToken L cfg clock (res_token res2) = Inr claims \<and>
           jwt_id claims = info_id (res_user res) \<and>
           jwt_role claims = reg_role inp"
proof -
  from assms(4) obtain m where m: "(reg_role inp, m) \<in> set userModels"
    by (rule role_in_userModels)
  let ?d = "registered_doc L env m db inp"
  let ?db = "set_collection m (collection m db @ [?d]) db"
  note free = available_sequenceId_free [OF assms(7)]
  from register_accepts [OF assms(1,2,3) m assms(5,6) free] obtain tok where
    r: "register L cfg env db inp =
          (Inr \<lparr>res_user = user_info_of ?d (reg_role inp), res_token = tok\<rparr>, ?db)"
    by blast
  have e: "email ?d = email_setter (reg_email inp)" by (simp add: registered_doc_def)
  have f: "findUserByEmail ?db (reg_email inp) = Some ((m, ?d), reg_role inp)"
    by (rule findUserByEmail_after_create [OF assms(6) m e])
  have c: "bcrypt_compare L (reg_password inp) (password ?d)"
    using assms(1) by (simp add: bcrypt_contract_def registered_doc_def)
  from generateToken_ok [OF assms(2,3), of "now env2" "Some (oid ?d)" "reg_role inp"] obtain tok2 where
    g: "generateToken L cfg (now env2) (Some (oid ?d)) (reg_role inp) = Inr tok2" and
    v: "\<And>t'. t' div 1000 < now env2 div 1000 + expiresIn cfg \<Longrightarrow>
           verifyToken L cfg t' tok2 =
             Inr \<lparr>jwt_id = Some (oid ?d), jwt_role = reg_role inp, iat = now env2 div 1000,
                  exp = now env2 div 1000 + expiresIn cfg\<rparr>"
    by blast
  have l: "login L cfg env2 ?db (reg_email inp) (reg_password inp) =
             Inr \<lparr>res_user = user_info_of ?d (reg_role inp), res_token = tok2\<rparr>"
    using f c g by (simp add: login_def)
  have i: "info_id (user_info_of ?d (reg_role inp)) = Some (new_id env)" "oid ?d = new_id env"
    by (simp_all add: user_info_of_def registered_doc_def)
  show ?thesis
    using r l v [OF assms(8)] i
    by (intro exI [of _ "\<lparr>res_user = user_info_of ?d (reg_role inp), res_token = tok\<rparr>"]
              exI [of _ ?db]
              exI [of _ "\<lparr>res_user = user_info_of ?d (reg_role inp), res_token = tok2\<rparr>"]
              exI [of _ "\<lparr>jwt_id = Some (oid ?d), jwt_role = reg_role inp, iat = now env2 div 1000,
                  exp = now env2 div 1000 + expiresIn cfg\<rparr>"]) simp
qed

text \<open>The two registrations that lead to the crowded collection.\<close>

lemma student_role: "(''student'', Student) \<in> set userModels"
  by (simp add: userModels_def ROLES_STUDENT_def)

lemma snd_register_student:
  assumes "reg_role inp = ''student''" and "valid_registration inp"
    and "findUserByEmail db (reg_email inp) = None" and "sequenceId_free env db inp"
  shows "snd (register toy_library toy_config env db inp) =
           db\<lparr>students := students db @ [registered_doc toy_library env Student db inp]\<rparr>"
proof -
  have m: "(reg_role inp, Student) \<in> set userModels" using student_role assms(1) by simp
  from register_accepts [OF toy_bcrypt_contract toy_jwt_contract sample_secret m assms(2,3,4)]
  show ?thesis by auto
qed

lemma first_step:
  "snd (register toy_library toy_config (sample_env\<lparr>new_id := 4\<rparr>) sample_db numbered_registration) =
     sample_db\<lparr>students :=
       [sample_student,
        \<lparr>oid = 4, email = ''p@x.com'', password = toy_hash ''secret123'' ''salt1'',
         firstName = ''P'', lastName = ''Q'', roleType = None, permissions = [],
         sequenceId = ''26-99''\<rparr>]\<rparr>"
proof -
  have v: "valid_registration numbered_registration"
    by (simp add: valid_registration_def numbered_registration_def ROLES_ADMIN_def
        email_regex_def string_eval)
  have f: "findUserByEmail sample_db (reg_email numbered_registration) = None"
    by (simp add: findUserByEmail_def userModels_def Model_findOne_email_def
        numbered_registration_def sample_defs string_eval)
  have a: "assigned_sequenceId (sample_env\<lparr>new_id := 4\<rparr>) Student sample_db numbered_registration = ''26-99''"
    by (simp add: assigned_sequenceId_def pre_save_sequenceId_def numbered_registration_def)
  have r: "reg_role numbered_registration = ''student''" by (simp add: numbered_registration_def)
  have c: "students sample_db = [sample_student]"
    "sequenceId sample_student = ''26-100001''"
    by (simp_all add: sample_db_def sample_student_def)
  have q: "sequenceId_free (sample_env\<lparr>new_id := 4\<rparr>) sample_db numbered_registration"
    by (simp add: sequenceId_free_def r userModels_get_own [OF student_role] a c)
  have d: "registered_doc toy_library (sample_env\<lparr>new_id := 4\<rparr>) Student sample_db numbered_registration =
        \<lparr>oid = 4, email = ''p@x.com'', password = toy_hash ''secret123'' ''salt1'',
         firstName = ''P'', lastName = ''Q'', roleType = None, permissions = [],
         sequenceId = ''26-99''\<rparr>"
    unfolding registered_doc_def a
    by (simp add: numbered_registration_def toy_library_def sample_env_def string_eval)
  have s: "students sample_db = [sample_student]" by (simp add: sample_db_def)
  show ?thesis
    using snd_register_student [OF r v f q] d s by simp
qed

lemma crowded_generated_id:
  assumes "studs = [sample_student,
        \<lparr>oid = 4, email = ''p@x.com'', password = toy_hash ''secret123'' ''salt1'',
         firstName = ''P'', lastName = ''Q'', roleType = None, permissions = [],
         sequenceId = ''26-99''\<rparr>] @ rest"
    and "rest = [] \<or> rest =
        [\<lparr>oid = 5, email = ''b@x.com'', password = toy_hash ''secret123'' ''salt1'',
         firstName = ''A'', lastName = ''B'', roleType = None, permissions = [],
         sequenceId = ''26-000100''\<rparr>]"
  shows "generateStudentId 2026 studs = ''26-000100''"
proof -
  let ?p = "\<lparr>oid = 4, email = ''p@x.com'', password = toy_hash ''secret123'' ''salt1'',
         firstName = ''P'', lastName = ''Q'', roleType = None, permissions = [],
         sequenceId = ''26-99''\<rparr>"
  have l: "find_last (yearSuffix 2026 @ ''-'') studs = Some ?p"
    using assms by (auto simp: year_2026 find_last_def sample_student_def startsWith_def)
  have n: "sequenceId ?p \<noteq> []" by simp
  have a: "at_index (split CHR ''-'' (sequenceId ?p)) 1 = Some ''99''"
    by (simp add: at_index_def)
  have p: "parseInt (Some ''99'') = Num (int 99)"
    by (simp add: parseInt_digits is_digit_10 to_double_small [of 99, simplified]
        digits_value_Cons digit_of_def)
  have "generateStudentId 2026 studs = yearSuffix 2026 @ ''-'' @ padStart 6 (decimal (99 + 1))"
    by (rule generateStudentId_eval [OF l n a p]) simp
  moreover have "decimal (99 + 1) = ''100''"
    by (simp add: decimal.simps char_of_def bit_Suc_0_iff)
  moreover have "padStart 6 ''100'' = ''000100''"
    by (simp add: padStart_def numeral_3_eq_3)
  ultimately show ?thesis by (simp add: year_2026)
qed

lemma second_step:
  "snd (register toy_library toy_config (sample_env\<lparr>new_id := 5\<rparr>)
         (sample_db\<lparr>students :=
            [sample_student,
             \<lparr>oid = 4, email = ''p@x.com'', password = toy_hash ''secret123'' ''salt1'',
              firstName = ''P'', lastName = ''Q'', roleType = None, permissions = [],
              sequenceId = ''26-99''\<rparr>]\<rparr>)
         sample_registration) = crowded_db"
  (is "snd (register _ _ ?env ?db _) = _")
proof -
  have r: "reg_role sample_registration = ''student''" by (simp add: sample_registration_def)
  have f: "findUserByEmail ?db (reg_email sample_registration) = None"
    by (simp add: findUserByEmail_def userModels_def Model_findOne_email_def
        sample_registration_def sample_defs string_eval)
  have g: "generateStudentId 2026 (students ?db) = ''26-000100''"
    by (rule crowded_generated_id [where rest = "[]"]) simp_all
  have a: "assigned_sequenceId ?env Student ?db sample_registration = ''26-000100''"
    using g by (simp add: assigned_sequenceId_def pre_save_sequenceId_def sample_registration_def
        sample_env_def)
  have c: "sequenceId sample_student = ''26-100001''" by (simp add: sample_student_def)
  have q: "sequenceId_free ?env ?db sample_registration"
    by (simp add: sequenceId_free_def r userModels_get_own [OF student_role] a c)
  have d: "registered_doc toy_library ?env Student ?db sample_registration =
        \<lparr>oid = 5, email = ''b@x.com'', password = toy_hash ''secret123'' ''salt1'',
         firstName = ''A'', lastName = ''B'', roleType = None, permissions = [],
         sequenceId = ''26-000100''\<rparr>"
    unfolding registered_doc_def a
    by (simp add: sample_registration_def toy_library_def sample_env_def string_eval)
  show ?thesis
    using snd_register_student [OF r sample_registration_valid f q] d
    by (simp add: crowded_db_def)
qed

lemma third_step:
  "findUserByEmail crowded_db (reg_email third_registration) = None \<and>
   register toy_library toy_config (sample_env\<lparr>new_id := 6\<rparr>) crowded_db third_registration =
     (Inl (DuplicateKeyError ''studentId''), crowded_db)"
  (is "_ \<and> register _ _ ?env _ _ = _")
proof -
  have r: "(reg_role third_registration, Student) \<in> set userModels"
    using student_role by (simp add: third_registration_def)
  have v: "valid_registration third_registration"
    by (simp add: valid_registration_def third_registration_def ROLES_ADMIN_def
        email_regex_def string_eval)
  have f: "findUserByEmail crowded_db (reg_email third_registration) = None"
    by (simp add: findUserByEmail_def userModels_def Model_findOne_email_def
        third_registration_def crowded_db_def sample_defs string_eval)
  have g: "generateStudentId 2026 (students crowded_db) = ''26-000100''"
    by (rule crowded_generated_id [where rest =
        "[\<lparr>oid = 5, email = ''b@x.com'', password = toy_hash ''secret123'' ''salt1'',
         firstName = ''A'', lastName = ''B'', roleType = None, permissions = [],
         sequenceId = ''26-000100''\<rparr>]"])
       (simp_all add: crowded_db_def)
  have a: "assigned_sequenceId ?env Student crowded_db third_registration = ''26-000100''"
    using g by (simp add: assigned_sequenceId_def pre_save_sequenceId_def third_registration_def
        sample_env_def)
  have q: "\<not> sequenceId_free ?env crowded_db third_registration"
    by (simp add: sequenceId_free_def userModels_get_own [OF r] a) (simp add: crowded_db_def)
  from register_sequence_collision [OF toy_bcrypt_contract r v f q] f show ?thesis by simp
qed

text \<open>
  C1 says that \<open>register\<close> followed by \<open>login\<close> succeeds for every valid email and
  password. \<open>register\<close> gives a new student the number after the greatest \<open>studentId\<close> of
  the year, where greatest is taken in the order of strings, and does not look whether
  that number is free. A student registered with the \<open>studentId\<close> \<open>26-99\<close> in the request
  body stays the greatest from then on, so the next student gets \<open>26-000100\<close>, and so
  would every student after that one: the third registration below, with an email that is
  not registered and data the schema accepts, fails on the unique index of \<open>studentId\<close>
  and stores nothing, so there is no account to log into.
\<close>

theorem register_collides_on_sequence_number:
  "run toy_library toy_config
     [(sample_env\<lparr>new_id := 4\<rparr>, Register numbered_registration),
      (sample_env\<lparr>new_id := 5\<rparr>, Register sample_registration)] sample_db = crowded_db \<and>
   findUserByEmail crowded_db (reg_email third_registration) = None \<and>
   register toy_library toy_config (sample_env\<lparr>new_id := 6\<rparr>) crowded_db third_registration =
     (Inl (DuplicateKeyError ''studentId''), crowded_db) \<and>
   login toy_library toy_config sample_env crowded_db (reg_email third_registration)
     (reg_password third_registration) = Inl (ErrorResponse ''Account not found'' 404)"
proof -
  have "run toy_library toy_config
     [(sample_env\<lparr>new_id := 4\<rparr>, Register numbered_registration),
      (sample_env\<lparr>new_id := 5\<rparr>, Register sample_registration)] sample_db = crowded_db"
    by (simp add: first_step second_step)
  moreover have "login toy_library toy_config sample_env crowded_db (reg_email third_registration)
     (reg_password third_registration) = Inl (ErrorResponse ''Account not found'' 404)"
    using third_step by (simp add: login_def)
  ultimately show ?thesis using third_step by simp
qed

text \<open>
  C7. \<open>register\<close> fails with the error \<open>User already exists with this email\<close> (status
  400) and leaves the database as it was whenever the email exists in any of the three
  collections. Whenever a registration for one of the three roles succeeds, its result
  carries the token that \<open>generateToken\<close> signed for the new id and the role, and every
  later registration with the same email fails with that error, whatever else it holds,
  and stores nothing. The first registration does succeed, with a token that
  \<open>verifyToken\<close> accepts, when the email is not registered, the schema accepts the data
  and the sequence number is available; the libraries are then assumed to meet their
  contracts and the signing secret to be set.
\<close>

theorem duplicate_registration:
  assumes "reg_role inp \<in> {ROLES_ADMIN, ROLES_TEACHER, ROLES_STUDENT}"
  shows "(\<forall>inp0 env0. (\<exists>d \<in> set (admins db @ teachers db @ students db).
                          email d = email_setter (reg_email inp0)) \<longrightarrow>
            register L cfg env0 db inp0 =
              (Inl (ErrorResponse ''User already exists with this email'' 400), db)) \<and>
         (\<forall>res db'. register L cfg env db inp = (Inr res, db') \<longrightarrow>
            generateToken L cfg (now env) (Some (new_id env)) (reg_role inp) = Inr (res_token res) \<and>
            info_id (res_user res) = Some (new_id env) \<and>
            (\<forall>env2 inp2. reg_email inp2 = reg_email inp \<longrightarrow>
               register L cfg env2 db' inp2 =
                 (Inl (ErrorResponse ''User already exists with this email'' 400), db'))) \<and>
         (bcrypt_contract L \<and> jwt_contract L \<and> JWT_SECRET cfg \<noteq> [] \<and>
          valid_registration inp \<and> findUserByEmail db (reg_email inp) = None \<and>
          sequence_number_available env db inp \<longrightarrow>
            (\<exists>res db'. register L cfg env db inp = (Inr res, db') \<and>
               (\<forall>clock. clock div 1000 < now env div 1000 + expiresIn cfg \<longrightarrow>
                  (\<exists>claims :: jwt_payload.
                     verifyToken L cfg clock (res_token res) = Inr claims \<and>
                     jwt_id claims = Some (new_id env) \<and> jwt_role claims = reg_role inp))))"
proof -
  from assms obtain m where m: "(reg_role inp, m) \<in> set userModels"
    by (rule role_in_userModels)
  have a: "\<forall>inp0 env0. (\<exists>d \<in> set (admins db @ teachers db @ students db).
                          email d = email_setter (reg_email inp0)) \<longrightarrow>
            register L cfg env0 db inp0 =
              (Inl (ErrorResponse ''User already exists with this email'' 400), db)"
    using findUserByEmail_None [of db] register_existing [of db] by blast
  have b: "generateToken L cfg (now env) (Some (new_id env)) (reg_role inp) = Inr (res_token res) \<and>
            info_id (res_user res) = Some (new_id env) \<and>
            (\<forall>env2 inp2. reg_email inp2 = reg_email inp \<longrightarrow>
               register L cfg env2 db' inp2 =
                 (Inl (ErrorResponse ''User already exists with this email'' 400), db'))"
    if r: "register L cfg env db inp = (Inr res, db')" for res db'
  proof -
    from register_success [OF r m] obtain user where
      f: "findUserByEmail db (reg_email inp) = None" and
      d: "db' = set_collection m (collection m db @ [user]) db" and
      e: "email user = email_setter (reg_email inp)" and o: "oid user = new_id env" and
      g: "generateToken L cfg (now env) (Some (new_id env)) (reg_role inp) = Inr (res_token res)" and
      u: "res_user res = user_info_of user (reg_role inp)"
      by blast
    have "findUserByEmail db' (reg_email inp) = Some ((m, user), reg_role inp)"
      unfolding d by (rule findUserByEmail_after_create [OF f m e])
    then have "\<forall>env2 inp2. reg_email inp2 = reg_email inp \<longrightarrow>
               register L cfg env2 db' inp2 =
                 (Inl (ErrorResponse ''User already exists with this email'' 400), db')"
      using register_existing [of db'] by simp
    then show ?thesis using g u o by (simp add: user_info_of_def)
  qed
  have c: "\<exists>res db'. register L cfg env db inp = (Inr res, db') \<and>
               (\<forall>clock. clock div 1000 < now env div 1000 + expiresIn cfg \<longrightarrow>
                  (\<exists>claims :: jwt_payload.
                     verifyToken L cfg clock (res_token res) = Inr claims \<and>
                     jwt_id claims = Some (new_id env) \<and> jwt_role claims = reg_role inp))"
    if h: "bcrypt_contract L" "jwt_contract L" "JWT_SECRET cfg \<noteq> []"
      "valid_registration inp" "findUserByEmail db (reg_email inp) = None"
      "sequence_number_available env db inp"
  proof -
    let ?d = "registered_doc L env m db inp"
    let ?db = "set_collection m (collection m db @ [?d]) db"
    from generateToken_ok [OF h(2,3), of "now env" "Some (new_id env)" "reg_role inp"] obtain tok where
      g: "generateToken L cfg (now env) (Some (new_id env)) (reg_role inp) = Inr tok" and
      v: "\<And>t'. t' div 1000 < now env div 1000 + expiresIn cfg \<Longrightarrow>
           verifyToken L cfg t' tok =
             Inr \<lparr>jwt_id = Some (new_id env), jwt_role = reg_role inp, iat = now env div 1000,
                  exp = now env div 1000 + expiresIn cfg\<rparr>"
      by blast
    from register_accepts [OF h(1,2,3) m h(4,5) available_sequenceId_free [OF h(6)]] g
    have r: "register L cfg env db inp =
          (Inr \<lparr>res_user = user_info_of ?d (reg_role inp), res_token = tok\<rparr>, ?db)"
      by auto
    show ?thesis
      using r v
      by (intro exI [of _ "\<lparr>res_user = user_info_of ?d (reg_role inp), res_token = tok\<rparr>"]
                exI [of _ ?db]) simp
  qed
  from a b c show ?thesis by blast
qed

theorem duplicate_registration_witness:
  "(case register toy_library toy_config sample_env sample_db sample_registration of
      (Inr res, db') \<Rightarrow>
        generateToken toy_library toy_config 1000 (Some 3) ''student'' = Inr (res_token res) \<and>
        map_sum id (\<lambda>c. (jwt_id c, jwt_role c))
          (verifyToken toy_library toy_config 2000 (res_token res)) = Inr (Some 3, ''student'') \<and>
        register toy_library toy_config sample_env db' sample_registration =
          (Inl (ErrorResponse ''User already exists with this email'' 400), db')
    | (Inl e, db') \<Rightarrow> False) \<and>
   register toy_library toy_config sample_env sample_db
      (sample_registration\<lparr>reg_email := ''A@X.com''\<rparr>) =
     (Inl (ErrorResponse ''User already exists with this email'' 400), sample_db)"
proof -
  note T = duplicate_registration [OF sample_registration_role, of sample_db toy_library
      toy_config sample_env]
  have t: "2000 div 1000 < now sample_env div 1000 + expiresIn toy_config"
    by (simp add: sample_env_def toy_config_def expiresIn_def)
  from T [THEN conjunct2, THEN conjunct2, THEN mp] toy_bcrypt_contract toy_jwt_contract
    sample_secret sample_registration_valid sample_registration_fresh
    sample_registration_available t
  obtain res db' and claims :: jwt_payload where
    r: "register toy_library toy_config sample_env sample_db sample_registration = (Inr res, db')" and
    v: "verifyToken toy_library toy_config 2000 (res_token res) = Inr claims" and
    c: "jwt_id claims = Some (new_id sample_env)" "jwt_role claims = reg_role sample_registration"
    by blast
  from T [THEN conjunct2, THEN conjunct1, THEN spec, THEN spec, THEN mp, OF r] have
    g: "generateToken toy_library toy_config (now sample_env) (Some (new_id sample_env))
          (reg_role sample_registration) = Inr (res_token res)" and
    s: "\<forall>env2 inp2. reg_email inp2 = reg_email sample_registration \<longrightarrow>
               register toy_library toy_config env2 db' inp2 =
                 (Inl (ErrorResponse ''User already exists with this email'' 400), db')"
    by simp_all
  from s have s': "register toy_library toy_config sample_env db' sample_registration =
          (Inl (ErrorResponse ''User already exists with this email'' 400), db')"
    by simp
  have g': "generateToken toy_library toy_config 1000 (Some 3) ''student'' = Inr (res_token res)"
    using g by (simp add: sample_env_def sample_registration_def)
  have c': "jwt_id claims = Some 3" "jwt_role claims = ''student''"
    using c by (simp_all add: sample_registration_def sample_env_def)
  have "\<exists>d \<in> set (admins sample_db @ teachers sample_db @ students sample_db).
          email d = email_setter (reg_email (sample_registration\<lparr>reg_email := ''A@X.com''\<rparr>))"
    by (simp add: sample_defs string_eval)
  with T [THEN conjunct1, THEN spec, THEN spec, THEN mp,
          of "sample_registration\<lparr>reg_email := ''A@X.com''\<rparr>" sample_env]
  have e: "register toy_library toy_config sample_env sample_db
      (sample_registration\<lparr>reg_email := ''A@X.com''\<rparr>) =
     (Inl (ErrorResponse ''User already exists with this email'' 400), sample_db)"
    by simp
  from r g' v c' s' e show ?thesis by simp
qed


section \<open>Password reset\<close>

lemma find_unique:
  assumes "distinct (map f xs)" and "t \<in> set xs" and "P t"
    and "\<And>x. x \<in> set xs \<Longrightarrow> P x \<Longrightarrow> f x = f t"
  shows "find P xs = Some t"
  using assms
proof (induction xs)
  case Nil
  then show ?case by simp
next
  case (Cons x xs)
  show ?case
  proof (cases "x = t")
    case True
    with Cons.prems(3) show ?thesis by simp
  next
    case False
    with Cons.prems(1,2) have t: "t \<in> set xs" and fx: "f x \<noteq> f t" by auto
    from fx Cons.prems(4) [of x] have nx: "\<not> P x" by auto
    have "find P xs = Some t"
    proof (rule Cons.IH)
      show "distinct (map f xs)" using Cons.prems(1) by simp
      show "t \<in> set xs" by (rule t)
      show "P t" by (rule Cons.prems(3))
      show "\<And>y. y \<in> set xs \<Longrightarrow> P y \<Longrightarrow> f y = f t"
        using Cons.prems(4) by simp
    qed
    with nx show ?thesis by simp
  qed
qed

lemma delete_token_removes:
  assumes "distinct (map tok_oid ts)" and "t \<in> set ts"
  shows "set (delete_token (tok_oid t) ts) = set ts - {t}"
  using assms
proof (induction ts)
  case Nil
  then show ?case by simp
next
  case (Cons x xs)
  show ?case
  proof (cases "x = t")
    case True
    with Cons.prems(1) show ?thesis by auto
  next
    case False
    with Cons.prems have "t \<in> set xs" "tok_oid x \<noteq> tok_oid t" by auto
    with Cons show ?thesis by auto
  qed
qed

lemma find_replace_by_id:
  assumes "find (\<lambda>d. oid d = i) xs = Some u" and "oid u' = i"
  shows "find (\<lambda>d. oid d = i) (replace_by_id u' xs) = Some u'"
  using assms by (induction xs) (auto split: if_splits)

lemma collection_set_collection [simp]:
  "collection m (set_collection m ds db) = ds"
  "tokens (set_collection m ds db) = tokens db"
  by (cases m; simp)+

lemma prepare_save_stored:
  assumes "bcrypt_contract L" and "stored_doc_valid m user"
  shows "prepare_save L env m db (user\<lparr>password := bcrypt_hash L pw s\<rparr>) =
           Inr (user\<lparr>password := bcrypt_hash L pw s,
                     permissions := (if m = Admin
                        then map js_String (pre_validate (map JString (permissions user)))
                        else map js_String (map JString (permissions user)))\<rparr>)"
proof -
  let ?h = "bcrypt_hash L pw s"
  have h: "is_bcrypt_hash ?h" "length ?h = 60" using assms(1) by (simp_all add: bcrypt_contract_def)
  then have ne: "?h \<noteq> []" by auto
  have min: "\<not> length ?h < password_minlength m"
    using h by (cases m) (simp_all add: password_minlength_def)
  have ps: "pre_save_password L env ?h = ?h"
    using h ne by (simp add: pre_save_password_def)
  have em: "email user \<noteq> []" "email_regex (email user)" "firstName user \<noteq> []" "lastName user \<noteq> []"
    using assms(2) by (auto simp: stored_doc_valid_def email_regex_def)
  have sq: "pre_save_sequenceId env m db (sequenceId user) = sequenceId user"
    using assms(2) by (cases m) (simp_all add: stored_doc_valid_def pre_save_sequenceId_def)
  show ?thesis
  proof (cases "m = Admin")
    case True
    with assms(2) have
      "(case roleType user of None \<Rightarrow> True | Some t \<Rightarrow> t \<in> set roleType_enum)"
      "list_all permission_valid (pre_validate (map JString (permissions user)))"
      by (simp_all add: stored_doc_valid_def)
    then show ?thesis
      using True ne min ps em sq
      by (auto simp: prepare_save_def validate_doc_def split: option.splits)
  next
    case False
    then show ?thesis
      using ne min ps em sq by (simp add: prepare_save_def validate_doc_def)
  qed
qed

lemma findUserById_find:
  assumes "findUserById db (Some i) r = Inr (Some (m, d))"
  shows "find (\<lambda>x. oid x = i) (collection m db) = Some d \<and> oid d = i"
  using assms
  by (auto simp: findUserById_def Model_findById_def dest: find_SomeD
      split: lookup.splits)

lemma find_reset_token_unique:
  assumes "distinct (map token (tokens db))" and "t \<in> set (tokens db)"
    and "token t = h" and "tok_type t = ''password-reset''" and "expiresAt t > clock"
  shows "find_reset_token db h clock = Some t"
  unfolding find_reset_token_def
  by (rule find_unique [where f = token]) (use assms in auto)

lemma find_reset_token_deleted:
  assumes "distinct (map token (tokens db))" and "distinct (map tok_oid (tokens db))"
    and "t \<in> set (tokens db)" and "token t = h"
  shows "find_reset_token (db'\<lparr>tokens := delete_token (tok_oid t) (tokens db)\<rparr>) h clock = None"
proof -
  have "\<forall>x \<in> set (tokens db) - {t}. token x \<noteq> h"
    using assms(1,3,4) by (auto simp: distinct_map inj_on_def)
  then show ?thesis
    using delete_token_removes [OF assms(2,3)]
    by (auto simp: find_reset_token_def find_None_iff)
qed



lemma resetPassword_accepts:
  assumes "bcrypt_contract L"
    and "distinct (map token (tokens db))"
    and "t \<in> set (tokens db)" and "token t = sha256_hex L raw"
    and "tok_type t = ''password-reset''" and "expiresAt t > now env"
    and "findUserById db (Some (tok_user t)) (toLowerCase (userModel t)) = Inr (Some (m, user))"
    and "stored_doc_valid m user"
  shows "resetPassword L env db raw newPassword =
           (Inr ''Password reset successful'',
            Token_deleteOne
              (set_collection m
                 (replace_by_id
                    (user\<lparr>password := bcrypt_hash L newPassword (salt env),
                           permissions := (if m = Admin
                              then map js_String (pre_validate (map JString (permissions user)))
                              else map js_String (map JString (permissions user)))\<rparr>)
                    (collection m db)) db)
              (tok_oid t))"
proof -
  have ft: "find_reset_token db (sha256_hex L raw) (now env) = Some t"
    by (rule find_reset_token_unique [OF assms(2,3,4,5,6)])
  have sq: "m = Admin \<or> sequenceId user \<noteq> []"
    using assms(8) by (auto simp: stored_doc_valid_def)
  show ?thesis
    using ft assms(7) sq prepare_save_stored [OF assms(1,8), of env db newPassword "salt env"]
    by (auto simp: resetPassword_def Model_save_def)
qed

lemma resetPassword_rejects:
  assumes "find_reset_token db (sha256_hex L raw) (now env) = None"
  shows "resetPassword L env db raw newPassword =
           (Inl (ErrorResponse ''Invalid or expired reset token'' 400), db)"
  using assms by (simp add: resetPassword_def)

lemma resetPassword_rejects_expired:
  assumes "\<forall>t \<in> set (tokens db). token t = sha256_hex L raw \<longrightarrow> expiresAt t \<le> now env"
  shows "resetPassword L env db raw newPassword =
           (Inl (ErrorResponse ''Invalid or expired reset token'' 400), db)"
proof (rule resetPassword_rejects)
  show "find_reset_token db (sha256_hex L raw) (now env) = None"
    using assms by (auto simp: find_reset_token_def find_None_iff)
qed


lemma sample_owner:
  "findUserById sample_db (Some (tok_user sample_token)) (toLowerCase (userModel sample_token)) =
     Inr (Some (Student, sample_student))"
  by (simp add: findUserById_def userModels_get_def userModels_def js_get_def Model_findById_def
      ROLES_ADMIN_def ROLES_TEACHER_def ROLES_STUDENT_def sample_defs string_eval)

lemma sample_student_valid: "stored_doc_valid Student sample_student"
  by (simp add: stored_doc_valid_def sample_student_def email_regex_def js_whitespace_def)

lemma sample_token_facts:
  "token sample_token = sha256_hex toy_library ''rawtoken''"
  "tok_type sample_token = ''password-reset''"
  "expiresAt sample_token > now sample_env"
  "tok_oid sample_token = 7"
  by (simp_all add: sample_token_def toy_library_def sample_env_def)


lemma sample_db_tokens:
  "distinct (map token (tokens sample_db))" "distinct (map tok_oid (tokens sample_db))"
  "sample_token \<in> set (tokens sample_db)"
  by (simp_all add: sample_db_def)


lemma used_db_facts:
  "distinct (map token (tokens used_db))"
  "sample_token\<lparr>used := True\<rparr> \<in> set (tokens used_db)"
  "findUserById used_db (Some (tok_user (sample_token\<lparr>used := True\<rparr>)))
     (toLowerCase (userModel (sample_token\<lparr>used := True\<rparr>))) =
     Inr (Some (Student, sample_student))"
  "students used_db = [sample_student]"
  by (simp_all add: used_db_def findUserById_def userModels_get_def userModels_def js_get_def
      Model_findById_def ROLES_ADMIN_def ROLES_TEACHER_def ROLES_STUDENT_def sample_defs string_eval)


lemma resetPassword_orphan:
  assumes "find_reset_token db (sha256_hex L raw) (now env) = Some t"
    and "findUserById db (Some (tok_user t)) (toLowerCase (userModel t)) = Inr None"
  shows "resetPassword L env db raw newPassword = (Inl (ErrorResponse ''User not found'' 404), db)"
  using assms by (simp add: resetPassword_def)

text \<open>
  C2, as amended. Take a stored reset token that is unused and unexpired; hashes and ids
  of stored tokens are unique, as the indexes of the collection make them. When its
  owner still exists in the collection its \<open>userModel\<close> names, as a document the schema
  accepts on \<open>save\<close> (a student or teacher with its sequence number), the first
  \<open>resetPassword(rawToken, newPassword)\<close> succeeds, the owner's stored password becomes a
  hash of the new password, and every later call with the same raw token fails with 400
  \<open>Invalid or expired reset token\<close> and changes nothing. When the owner no longer exists,
  the call fails with 404 \<open>User not found\<close> and the store, the token included, stays as
  it was.
\<close>

theorem reset_token_single_use:
  assumes "distinct (map token (tokens db))" and "distinct (map tok_oid (tokens db))"
    and "t \<in> set (tokens db)" and "token t = sha256_hex L raw"
    and "tok_type t = ''password-reset''" and "expiresAt t > now env" and "\<not> used t"
  shows "(\<forall>m user. bcrypt_contract L \<and>
            findUserById db (Some (tok_user t)) (toLowerCase (userModel t)) = Inr (Some (m, user)) \<and>
            stored_doc_valid m user \<longrightarrow>
            (\<exists>db' user'.
               resetPassword L env db raw newPassword = (Inr ''Password reset successful'', db') \<and>
               Model_findById m db' (oid user) = Some (m, user') \<and>
               password user' = bcrypt_hash L newPassword (salt env) \<and>
               bcrypt_compare L newPassword (password user') \<and>
               (\<forall>env2 pw2. resetPassword L env2 db' raw pw2 =
                  (Inl (ErrorResponse ''Invalid or expired reset token'' 400), db')))) \<and>
         (findUserById db (Some (tok_user t)) (toLowerCase (userModel t)) = Inr None \<longrightarrow>
            resetPassword L env db raw newPassword =
              (Inl (ErrorResponse ''User not found'' 404), db))"
proof -
  have ft: "find_reset_token db (sha256_hex L raw) (now env) = Some t"
    by (rule find_reset_token_unique [OF assms(1,3,4,5,6)])
  have a: "\<exists>db' user'.
               resetPassword L env db raw newPassword = (Inr ''Password reset successful'', db') \<and>
               Model_findById m db' (oid user) = Some (m, user') \<and>
               password user' = bcrypt_hash L newPassword (salt env) \<and>
               bcrypt_compare L newPassword (password user') \<and>
               (\<forall>env2 pw2. resetPassword L env2 db' raw pw2 =
                  (Inl (ErrorResponse ''Invalid or expired reset token'' 400), db'))"
    if b: "bcrypt_contract L"
      and o: "findUserById db (Some (tok_user t)) (toLowerCase (userModel t)) = Inr (Some (m, user))"
      and sv: "stored_doc_valid m user" for m user
  proof -
    let ?h = "bcrypt_hash L newPassword (salt env)"
    let ?u = "user\<lparr>password := ?h,
                    permissions := (if m = Admin
                       then map js_String (pre_validate (map JString (permissions user)))
                       else map js_String (map JString (permissions user)))\<rparr>"
    let ?db1 = "set_collection m (replace_by_id ?u (collection m db)) db"
    let ?db' = "Token_deleteOne ?db1 (tok_oid t)"
    have r1: "resetPassword L env db raw newPassword = (Inr ''Password reset successful'', ?db')"
      by (rule resetPassword_accepts [OF b assms(1,3,4,5,6) o sv])
    from findUserById_find [OF o] have
      fu: "find (\<lambda>x. oid x = tok_user t) (collection m db) = Some user" and ou: "oid user = tok_user t"
      by simp_all
    have "oid ?u = tok_user t" using ou by simp
    from find_replace_by_id [OF fu this]
    have f2: "Model_findById m ?db' (oid user) = Some (m, ?u)"
      using ou by (cases m) (simp_all add: Model_findById_def Token_deleteOne_def)
    have cmp: "bcrypt_compare L newPassword (password ?u)"
      using b by (simp add: bcrypt_contract_def)
    have td: "?db' = ?db1\<lparr>tokens := delete_token (tok_oid t) (tokens db)\<rparr>"
      by (simp add: Token_deleteOne_def)
    have gone: "\<And>clock. find_reset_token ?db' (sha256_hex L raw) clock = None"
      unfolding td by (rule find_reset_token_deleted [OF assms(1,2,3,4)])
    have r2: "\<forall>env2 pw2. resetPassword L env2 ?db' raw pw2 =
                (Inl (ErrorResponse ''Invalid or expired reset token'' 400), ?db')"
      using gone by (simp add: resetPassword_rejects)
    show ?thesis
      using r1 f2 cmp r2
      by (intro exI [of _ ?db'] exI [of _ ?u]) simp
  qed
  have c: "resetPassword L env db raw newPassword =
              (Inl (ErrorResponse ''User not found'' 404), db)"
    if "findUserById db (Some (tok_user t)) (toLowerCase (userModel t)) = Inr None"
    by (rule resetPassword_orphan [OF ft that])
  from a c show ?thesis by blast
qed

text \<open>
  The claim as first stated asks no more of the token than to be present and unexpired.
  With the owner deleted, such a token makes the first call fail with 404.
\<close>

theorem reset_token_single_use_counterexample:
  "find_reset_token orphan_db (sha256_hex toy_library ''rawtoken'') (now sample_env) = Some sample_token \<and>
   now sample_env < expiresAt sample_token \<and>
   resetPassword toy_library sample_env orphan_db ''rawtoken'' ''newpassword'' =
     (Inl (ErrorResponse ''User not found'' 404), orphan_db)"
proof -
  have f: "find_reset_token orphan_db (sha256_hex toy_library ''rawtoken'') (now sample_env) = Some sample_token"
    by (simp add: find_reset_token_def orphan_db_def sample_db_def sample_token_facts)
  have u: "findUserById orphan_db (Some (tok_user sample_token)) (toLowerCase (userModel sample_token)) = Inr None"
    by (simp add: findUserById_def userModels_get_def userModels_def js_get_def Model_findById_def
      ROLES_ADMIN_def ROLES_TEACHER_def ROLES_STUDENT_def orphan_db_def sample_defs string_eval)
  show ?thesis using f u sample_token_facts(3) by (simp add: resetPassword_def)
qed

theorem reset_token_single_use_witness:
  "(case resetPassword toy_library sample_env sample_db ''rawtoken'' ''newpassword'' of
      (Inr msg, db') \<Rightarrow>
        map_option (password \<circ> snd) (Model_findById Student db' 2) =
          Some (toy_hash ''newpassword'' ''salt1'') \<and>
        resetPassword toy_library sample_env db' ''rawtoken'' ''another1'' =
          (Inl (ErrorResponse ''Invalid or expired reset token'' 400), db')
    | (Inl e, db') \<Rightarrow> False)"
proof -
  have nu: "\<not> used sample_token" by (simp add: sample_token_def)
  note T = reset_token_single_use [OF sample_db_tokens sample_token_facts(1,2,3) nu,
      of "''newpassword''"]
  from T [THEN conjunct1, THEN spec, THEN spec, THEN mp,
      OF conjI [OF toy_bcrypt_contract conjI [OF sample_owner sample_student_valid]]]
  obtain db' user' where
    r: "resetPassword toy_library sample_env sample_db ''rawtoken'' ''newpassword'' =
          (Inr ''Password reset successful'', db')" and
    f: "Model_findById Student db' (oid sample_student) = Some (Student, user')" and
    p: "password user' = bcrypt_hash toy_library ''newpassword'' (salt sample_env)" and
    s: "\<forall>env2 pw2. resetPassword toy_library env2 db' ''rawtoken'' pw2 =
              (Inl (ErrorResponse ''Invalid or expired reset token'' 400), db')"
    by blast
  have f': "map_option (password \<circ> snd) (Model_findById Student db' 2) =
          Some (toy_hash ''newpassword'' ''salt1'')"
    using f p by (simp add: sample_student_def toy_library_def sample_env_def)
  show ?thesis using r f' s by simp
qed

text \<open>
  The owner must also be a document its schema still accepts: \<open>save\<close> validates the
  loaded document as a whole, so a stored permission outside the enum makes the call fail
  with a validation error, and the token stays.
\<close>

lemma resetPassword_invalid_owner:
  "resetPassword toy_library sample_env legacy_db ''rawtoken'' ''newpassword'' =
     (Inl (ValidationError ''permissions'' ''enum''), legacy_db)"
proof -
  have f: "find_reset_token legacy_db (sha256_hex toy_library ''rawtoken'') (now sample_env) =
             Some (sample_token\<lparr>tok_user := 1, userModel := ''Admin''\<rparr>)"
    by (simp add: find_reset_token_def legacy_db_def sample_db_def sample_token_def
        toy_library_def sample_env_def)
  have u: "findUserById legacy_db (Some 1) (toLowerCase ''Admin'') =
             Inr (Some (Admin, sample_admin\<lparr>permissions := [''reports'']\<rparr>))"
    by (simp add: findUserById_def userModels_get_def userModels_def js_get_def Model_findById_def
        ROLES_ADMIN_def ROLES_TEACHER_def ROLES_STUDENT_def legacy_db_def sample_defs string_eval)
  have n: "pre_validate [JString ''reports''] = [JString ''reports'']"
    by (simp add: pre_validate_def normalizePermission_def ADMIN_PERMISSION_values_def
        ADMIN_PERMISSIONS_def PERMISSION_ALIASES_def js_get_def object_prototype_keys_def
        string_eval)
  have v: "validate_doc Admin
             (sample_admin\<lparr>permissions := [''reports''],
                            password := bcrypt_hash toy_library ''newpassword'' (salt sample_env)\<rparr>)
             [JString ''reports''] =
           Some (ValidationError ''permissions'' ''enum'')"
    by (simp add: validate_doc_def email_regex_def js_whitespace_def sample_admin_def permission_valid_def
        ADMIN_PERMISSION_values_def ADMIN_PERMISSIONS_def password_minlength_def roleType_enum_def
        toy_library_def toy_hash_length toy_hash_nonempty)
  show ?thesis
    using f u n v
    by (simp add: resetPassword_def Model_save_def prepare_save_def sample_token_def)
qed

section \<open>The token collection of a store the program produces\<close>

lemma set_delete_token: "set (delete_token i ts) \<subseteq> set ts"
  by (induction ts) auto

lemma distinct_delete_token: "distinct (map f ts) \<Longrightarrow> distinct (map f (delete_token i ts))"
proof (induction ts)
  case Nil then show ?case by simp
next
  case (Cons t ts)
  then show ?case using set_delete_token [of i ts] by auto
qed

lemma tokens_unused_sub:
  assumes "tokens_unused db" and "tokens db' = delete_token i (tokens db) \<or> tokens db' = filter P (tokens db) \<or> tokens db' = tokens db"
  shows "tokens_unused db'"
  using assms set_delete_token [of i "tokens db"]
  by (auto simp: tokens_unused_def list_all_iff distinct_delete_token distinct_map_filter)

lemma tokens_Model_create: "tokens (snd (Model_create L env m db data)) = tokens db"
  by (auto simp: Model_create_def Let_def split: sum.splits option.splits)

lemma tokens_register: "tokens (snd (register L cfg env db inp)) = tokens db"
proof -
  have "tokens (snd (Model_create L env m db data)) = tokens db" for m data
    by (rule tokens_Model_create)
  then have *: "Model_create L env m db data = (r, db') \<Longrightarrow> tokens db' = tokens db" for m data r db'
    by (metis snd_conv)
  show ?thesis
    by (auto simp: register_def Let_def dest: * split: option.splits lookup.splits sum.splits prod.splits)
qed

lemma tokens_Model_save: "tokens (snd (Model_save L env m db d)) = tokens db"
  by (auto simp: Model_save_def Let_def split: sum.splits option.splits)

lemma tokens_resetPassword:
  "tokens (snd (resetPassword L env db raw pw)) = tokens db \<or>
   (\<exists>i. tokens (snd (resetPassword L env db raw pw)) = delete_token i (tokens db))"
  by (auto simp: resetPassword_def Let_def Token_deleteOne_def case_prod_beta tokens_Model_save
      split: option.splits sum.splits)

lemma tokens_forgotPassword:
  assumes "tokens_unused db"
  shows "tokens_unused (snd (forgotPassword L env db e ip agent))"
  using assms
  by (auto simp: forgotPassword_def Token_save_def Let_def tokens_unused_def list_ex_iff
      split: option.splits)

lemma tokens_unused_handle:
  assumes "tokens_unused db"
  shows "tokens_unused (handle L cfg env rq db)"
proof (cases rq)
  case (Register inp)
  then show ?thesis using tokens_unused_sub [OF assms, of _ 0 "\<lambda>x. True"] tokens_register by simp
next
  case (ForgotPassword e ip agent)
  then show ?thesis using tokens_forgotPassword [OF assms] by simp
next
  case (ResetPassword raw pw)
  then show ?thesis
    using tokens_resetPassword [of L env db raw pw] tokens_unused_sub [OF assms]
    by auto
next
  case (WriteIdentities a t s)
  then show ?thesis using assms by (simp add: tokens_unused_def)
next
  case ExpireTokens
  then show ?thesis
    using tokens_unused_sub [OF assms, of "expire_tokens (now env) db" 0 "\<lambda>t. now env < expiresAt t"]
    by (simp add: expire_tokens_def)
qed

lemma tokens_unused_run:
  "tokens_unused db \<Longrightarrow> tokens_unused (run L cfg steps db)"
  by (induction steps arbitrary: db) (auto simp: tokens_unused_handle)

lemma produced_tokens_unused:
  assumes "tokens db0 = []"
  shows "tokens_unused (run L cfg steps db0)"
  by (rule tokens_unused_run) (simp add: tokens_unused_def assms)

text \<open>
  C3. On every store the program produces, from one without tokens by any run of
  requests, \<open>resetPassword\<close> accepts only a stored reset token that is unused and
  unexpired: when it succeeds, the store holds a token of type \<open>password-reset\<close> with the
  digest of the raw token that is not marked used and expires after the clock; and for
  every stored token with that digest that is marked used or whose expiry is not after
  the clock, the call fails with 400 \<open>Invalid or expired reset token\<close> and leaves the
  store, the owner's password included, as it was. No token of such a store is marked
  used (\<open>produced_tokens_unused\<close>): the program deletes a token when it is consumed.
\<close>

theorem reset_requires_unused_unexpired:
  assumes "tokens db0 = []" and "db = run L cfg steps db0"
  shows "(\<forall>t \<in> set (tokens db).
            token t = sha256_hex L raw \<and> (used t \<or> expiresAt t \<le> now env) \<longrightarrow>
            resetPassword L env db raw newPassword =
              (Inl (ErrorResponse ''Invalid or expired reset token'' 400), db)) \<and>
         (\<forall>msg db'. resetPassword L env db raw newPassword = (Inr msg, db') \<longrightarrow>
            (\<exists>t \<in> set (tokens db).
               token t = sha256_hex L raw \<and> tok_type t = ''password-reset'' \<and>
               \<not> used t \<and> now env < expiresAt t))"
proof -
  have inv: "tokens_unused db" unfolding assms(2) by (rule produced_tokens_unused [OF assms(1)])
  then have un: "\<forall>t \<in> set (tokens db). \<not> used t" and di: "distinct (map token (tokens db))"
    by (simp_all add: tokens_unused_def list_all_iff)
  have a: "resetPassword L env db raw newPassword =
              (Inl (ErrorResponse ''Invalid or expired reset token'' 400), db)"
    if t: "t \<in> set (tokens db)" and h: "token t = sha256_hex L raw"
      and e: "used t \<or> expiresAt t \<le> now env" for t
  proof (rule resetPassword_rejects_expired)
    have ex: "expiresAt t \<le> now env" using e un t by auto
    show "\<forall>x \<in> set (tokens db). token x = sha256_hex L raw \<longrightarrow> expiresAt x \<le> now env"
    proof (intro ballI impI)
      fix x assume "x \<in> set (tokens db)" and "token x = sha256_hex L raw"
      then have "x = t" using di t h by (auto simp: distinct_map inj_on_def)
      then show "expiresAt x \<le> now env" using ex by simp
    qed
  qed
  have b: "\<exists>t \<in> set (tokens db).
               token t = sha256_hex L raw \<and> tok_type t = ''password-reset'' \<and>
               \<not> used t \<and> now env < expiresAt t"
    if r: "resetPassword L env db raw newPassword = (Inr msg, db')" for msg db'
  proof (cases "find_reset_token db (sha256_hex L raw) (now env)")
    case None
    then show ?thesis using r by (simp add: resetPassword_rejects)
  next
    case (Some t)
    from find_SomeD [OF Some [unfolded find_reset_token_def]] un show ?thesis by auto
  qed
  from a b show ?thesis by blast
qed

lemma sample_run_tokens:
  "tokens (run toy_library toy_config sample_run tokenless_db) =
     [\<lparr>tok_oid = 3, tok_user = 2, userModel = ''Student'', token = rev ''rawtoken2'',
       tok_type = ''password-reset'', expiresAt = 3601000, used = False,
       ipAddress = ''127.0.0.1'', userAgent = ''agent''\<rparr>]"
proof -
  have f: "findUserByEmail tokenless_db ''a@x.com'' = Some ((Student, sample_student), ''student'')"
    by (simp add: findUserByEmail_def userModels_def Model_findOne_email_def tokenless_db_def
        ROLES_ADMIN_def ROLES_TEACHER_def ROLES_STUDENT_def sample_defs string_eval)
  show ?thesis
    using f
    by (simp add: sample_run_def forgotPassword_def Token_save_def tokenless_db_def Let_def
        sample_student_def sample_env_def toy_library_def)
qed

theorem reset_requires_unused_unexpired_witness:
  "map expiresAt (tokens (run toy_library toy_config sample_run tokenless_db)) = [3601000] \<and>
   resetPassword toy_library (sample_env\<lparr>now := 4000000\<rparr>)
     (run toy_library toy_config sample_run tokenless_db) ''rawtoken2'' ''newpassword'' =
     (Inl (ErrorResponse ''Invalid or expired reset token'' 400),
      run toy_library toy_config sample_run tokenless_db)"
proof -
  let ?t = "\<lparr>tok_oid = 3, tok_user = 2, userModel = ''Student'', token = rev ''rawtoken2'',
       tok_type = ''password-reset'', expiresAt = 3601000, used = False,
       ipAddress = ''127.0.0.1'', userAgent = ''agent''\<rparr>"
  have e: "tokens tokenless_db = []" by (simp add: tokenless_db_def)
  note T = reset_requires_unused_unexpired [OF e refl, of toy_library toy_config sample_run
      "''rawtoken2''" "sample_env\<lparr>now := 4000000\<rparr>" "''newpassword''"]
  have m: "?t \<in> set (tokens (run toy_library toy_config sample_run tokenless_db))"
    by (simp add: sample_run_tokens)
  have h: "token ?t = sha256_hex toy_library ''rawtoken2'' \<and>
           (used ?t \<or> expiresAt ?t \<le> now (sample_env\<lparr>now := 4000000\<rparr>))"
    by (simp add: toy_library_def)
  from T [THEN conjunct1, THEN bspec, OF m, THEN mp, OF h] show ?thesis
    by (simp add: sample_run_tokens)
qed

text \<open>
  The query of \<open>resetPassword\<close> itself does not look at \<open>used\<close>, unlike \<open>isValid\<close>,
  \<open>findValidToken\<close> and \<open>verifyResetToken\<close>. On a store written by hand, with the sample
  token marked used, it accepts the token.
\<close>

lemma resetPassword_ignores_used:
  "map used (tokens used_db) = [True] \<and>
   verifyResetToken toy_library (now sample_env) used_db ''rawtoken'' =
     Inl (ErrorResponse ''Invalid or expired token'' 400) \<and>
   fst (resetPassword toy_library sample_env used_db ''rawtoken'' ''newpassword'') =
     Inr ''Password reset successful''"
proof -
  have a: "map used (tokens used_db) = [True]"
    by (simp add: used_db_def sample_db_def)
  have b: "verifyResetToken toy_library (now sample_env) used_db ''rawtoken'' =
     Inl (ErrorResponse ''Invalid or expired token'' 400)"
    by (simp add: verifyResetToken_def used_db_def sample_db_def)
  have "\<exists>db'. resetPassword toy_library sample_env used_db ''rawtoken'' ''newpassword'' =
           (Inr ''Password reset successful'', db')"
    using resetPassword_accepts [OF toy_bcrypt_contract used_db_facts(1,2) _ _ _
          used_db_facts(3) sample_student_valid, of "''rawtoken''" sample_env "''newpassword''"]
    by (simp add: sample_token_facts)
  then have d: "fst (resetPassword toy_library sample_env used_db ''rawtoken'' ''newpassword'') =
     Inr ''Password reset successful''"
    by auto
  from a b d show ?thesis by simp
qed


end
